theory Spec2Isabelle
  imports Main "HOL-Library.Word"
begin

unbundle bit_operations_syntax

section \<open>iButton cloner: data model\<close>

text \<open>
  The sketch \<open>iButton-cloner-nano.ino\<close> keeps its whole state in globals and talks to the
  world through pins, the OneWire library, the serial port and the EEPROM. The embedding
  keeps the globals in one record, writes every output into a trace (pins, delays and
  OneWire calls) or into the serial text, and takes every input from fields of the same
  record.
\<close>

type_synonym byte = "8 word"

datatype level = LOW | HIGH

datatype pmode = INPUT | OUTPUT | INPUT_PULLUP

text \<open>
  The pins by the names the sketch gives them (lines 61-66); \<open>SLOT x\<close> is the pin
  \<open>SLOT[x]\<close> of the selector, least significant bit first.
\<close>

datatype pin = IBUTTON | RED | GREEN | READ | WRITE | SLOT nat

text \<open>
  One event per call with an effect outside the processor. The \<open>OW_\<close> events are the calls
  into the OneWire library object \<open>ibutton\<close>; what the library puts on the wire for each
  of them is the library's business and is not unfolded here.
\<close>

datatype event =
    DigitalWrite pin level
  | PinMode pin pmode
  | Delay nat
  | DelayMicroseconds nat
  | OW_search
  | OW_reset_search
  | OW_skip
  | OW_reset
  | OW_write byte

section \<open>Output-only procedures\<close>

text \<open>
  \<open>writeByte\<close> (lines 329-345) reads only its argument and only drives the pin, so it is
  modelled by the list of events it emits. The loop runs \<open>data_bit\<close> from 0 to 7; each
  round tests \<open>data & 1\<close> and then shifts \<open>data\<close> right by one.
\<close>

fun writeByte_loop :: "nat \<Rightarrow> byte \<Rightarrow> event list" where
  "writeByte_loop 0 data = []"
| "writeByte_loop (Suc n) data =
     (if data AND 1 \<noteq> 0
      then [DigitalWrite IBUTTON LOW, PinMode IBUTTON OUTPUT,
            DelayMicroseconds 60,
            PinMode IBUTTON INPUT, DigitalWrite IBUTTON HIGH,
            Delay 10]
      else [DigitalWrite IBUTTON LOW, PinMode IBUTTON OUTPUT,
            PinMode IBUTTON INPUT, DigitalWrite IBUTTON HIGH,
            Delay 10])
     @ writeByte_loop n (drop_bit 1 data)"

definition writeByte :: "byte \<Rightarrow> event list" where
  "writeByte data = writeByte_loop 8 data"

text \<open>
  \<open>blinkPin\<close> (lines 347-354); \<open>period/2\<close> is C integer division of a non-negative
  \<open>int\<close>, the same as \<open>div\<close> on naturals.
\<close>

fun blinkPin_loop :: "nat \<Rightarrow> pin \<Rightarrow> nat \<Rightarrow> event list" where
  "blinkPin_loop 0 LED period = []"
| "blinkPin_loop (Suc n) LED period =
     [DigitalWrite LED HIGH, Delay (period div 2), DigitalWrite LED LOW, Delay (period div 2)]
     @ blinkPin_loop n LED period"

definition blinkPin :: "pin \<Rightarrow> nat \<Rightarrow> nat \<Rightarrow> event list" where
  "blinkPin LED cycles period = blinkPin_loop cycles LED period"

section \<open>The machine\<close>

text \<open>
  The globals of the sketch (lines 76-80), the EEPROM, the two output channels and the
  inputs. The arrays \<open>addr\<close> and \<open>code\<close> are indexed only by loop counters below 8,
  so they are functions from the index. The inputs:
  \<^item> \<open>rx\<close> is the serial receive buffer; \<open>rx_later\<close> lists what has arrived at each
    later poll of an empty buffer (an empty list for a poll that finds nothing);
  \<^item> \<open>in_READ\<close> and \<open>in_WRITE\<close> list the levels the successive \<open>digitalRead\<close> calls
    on the two buttons return; a button whose list is used up reads \<open>HIGH\<close>, the level
    of the pulled-up input with the button released;
  \<^item> \<open>in_SLOT x\<close> is the level of selector pin \<open>SLOT[x]\<close>;
  \<^item> \<open>found\<close> is what \<open>ibutton.search\<close> finds on the wire: the 8 bytes of the device,
    or nothing.
\<close>

record machine =
  addr :: "nat \<Rightarrow> byte"
  code :: "nat \<Rightarrow> byte"
  read_pressed :: bool
  write_pressed :: bool
  serial_choice :: int
  slot :: byte
  eeprom :: "nat \<Rightarrow> byte"
  trace :: "event list"
  tx :: string
  rx :: "char list"
  rx_later :: "char list list"
  in_READ :: "level list"
  in_WRITE :: "level list"
  in_SLOT :: "nat \<Rightarrow> level"
  found :: "byte list option"

text \<open>How one pass through \<open>loop\<close> ends: it returns, it restarts the processor through
  \<open>resetFunc\<close>, or it is still waiting for serial input that never arrives.\<close>

datatype outcome = Returned | Restarted | Blocked

definition emit :: "event list \<Rightarrow> machine \<Rightarrow> machine" where
  "emit es m = m\<lparr>trace := trace m @ es\<rparr>"

definition Serial_print :: "string \<Rightarrow> machine \<Rightarrow> machine" where
  "Serial_print s m = m\<lparr>tx := tx m @ s\<rparr>"

definition Serial_println :: "string \<Rightarrow> machine \<Rightarrow> machine" where
  "Serial_println s m = Serial_print (s @ [CHR 0x0D, CHR 0x0A]) m"

definition EEPROM_write :: "nat \<Rightarrow> byte \<Rightarrow> machine \<Rightarrow> machine" where
  "EEPROM_write a v m = m\<lparr>eeprom := (eeprom m)(a := v)\<rparr>"

text \<open>Statements run one after another: a list of state transformers, applied in order.\<close>

definition run :: "(machine \<Rightarrow> machine) list \<Rightarrow> machine \<Rightarrow> machine" where
  "run steps m = fold (\<lambda>step m'. step m') steps m"

text \<open>
  The address \<open>x + (slot << 5)\<close>. The shift is done on \<open>int\<close> after integer promotion,
  so nothing of \<open>slot\<close> is cut off: the largest value is \<open>255 * 32 + x\<close>.
\<close>

definition at_slot :: "machine \<Rightarrow> nat \<Rightarrow> nat" where
  "at_slot m x = x + push_bit 5 (unat (slot m))"

subsection \<open>Slot selection and the emptiness test\<close>

text \<open>\<open>digitalRead\<close> returns the \<open>int\<close> 1 for \<open>HIGH\<close> and 0 for \<open>LOW\<close>.\<close>

definition level_bit :: "level \<Rightarrow> byte" where
  "level_bit l = (case l of LOW \<Rightarrow> 0 | HIGH \<Rightarrow> 1)"

text \<open>
  The first loop of \<open>update_slot\<close> (lines 489-492). The bits are shifted by less than 4,
  so computing in 8 bits is the same as computing in \<open>int\<close> and storing into the
  \<open>byte\<close>.
\<close>

definition read_selector :: "(nat \<Rightarrow> level) \<Rightarrow> byte" where
  "read_selector pins = fold (\<lambda>x s. s OR push_bit x (level_bit (pins x))) [0..<4] 0"

text \<open>The body of the second loop (line 494): \<open>code[x] = EEPROM.read(x + (slot << 5))\<close>.\<close>

definition load_code_step :: "nat \<Rightarrow> machine \<Rightarrow> machine" where
  "load_code_step x m = m\<lparr>code := (code m)(x := eeprom m (at_slot m x))\<rparr>"

definition update_slot :: "machine \<Rightarrow> machine" where
  "update_slot m = fold load_code_step [0..<8] (m\<lparr>slot := read_selector (in_SLOT m)\<rparr>)"

definition slot_is_full :: "machine \<Rightarrow> bool" where
  "slot_is_full m =
     (let result = fold (\<lambda>x r. r OR eeprom m (at_slot m x)) [0..<8] (0 :: byte)
      in if result = 0 then False else True)"

text \<open>The clearing loop, written twice in the sketch (lines 223-225 and 265-267).\<close>

definition clear_slot_step :: "nat \<Rightarrow> machine \<Rightarrow> machine" where
  "clear_slot_step x m = EEPROM_write (at_slot m x) 0x00 m"

definition clear_slot :: "machine \<Rightarrow> machine" where
  "clear_slot m = fold clear_slot_step [0..<16] m"

subsection \<open>Checksum\<close>

text \<open>
  Modelled from the spec: \<open>ibutton.crc8\<close> belongs to the OneWire library, which is not
  among the sources. The spec gives it as the CRC-8/MAXIM of the one-wire convention:
  polynomial 0x31 reflected (0x8C), initial value 0, bytes taken least significant bit
  first.
\<close>

fun crc8_bits :: "nat \<Rightarrow> byte \<Rightarrow> byte \<Rightarrow> byte" where
  "crc8_bits 0 crc inbyte = crc"
| "crc8_bits (Suc n) crc inbyte =
     (let mix = (crc XOR inbyte) AND 1;
          crc1 = drop_bit 1 crc;
          crc2 = (if mix \<noteq> 0 then crc1 XOR 0x8C else crc1)
      in crc8_bits n crc2 (drop_bit 1 inbyte))"

definition crc8 :: "byte list \<Rightarrow> byte" where
  "crc8 bs = fold (\<lambda>b crc. crc8_bits 8 crc b) bs 0"

section \<open>Serial output\<close>

text \<open>
  \<open>Serial.print(b, HEX)\<close> for a \<open>byte\<close>: the digits of \<open>b\<close> in base 16, upper case, no
  leading zero (the Arduino core's \<open>printNumber\<close>); a byte has one or two digits.
\<close>

definition hex_digit :: "nat \<Rightarrow> char" where
  "hex_digit c = (if c < 10 then char_of (c + 48) else char_of (c + 65 - 10))"

definition print_HEX :: "byte \<Rightarrow> string" where
  "print_HEX b =
     (if unat b div 16 = 0 then [hex_digit (unat b mod 16)]
      else [hex_digit (unat b div 16 mod 16), hex_digit (unat b mod 16)])"

definition printWelcome :: "machine \<Rightarrow> machine" where
  "printWelcome m =
     run [Serial_println ''iButton Cloner Serial Console'',
          Serial_println ''Enter 'R' to read current memory slot.'',
          Serial_println ''Enter 'W' to write to current memory slot.'',
          Serial_println ''Enter 'C' to clear the current memory slot.'',
          Serial_println (''Enter 'D' to dump all memory slots.'' @ [CHR 0x0A])] m"

text \<open>
  \<open>print_mem\<close> (lines 364-377). The sketch calls it with 1 and 7 only; the counter is a
  \<open>byte\<close>, which holds every index up to \<open>upper\<close> as long as \<open>upper\<close> is below 256.
\<close>

definition print_mem_step :: "nat \<Rightarrow> nat \<Rightarrow> machine \<Rightarrow> machine" where
  "print_mem_step upper x m =
     (let curr_val = eeprom m (at_slot m x);
          m1 = Serial_print ''0x'' m;
          m2 = (if curr_val < 0x10 then Serial_print ''0'' m1 else m1);
          m3 = Serial_print (print_HEX curr_val) m2
      in if x < upper - 1 then Serial_print '', '' m3 else m3)"

definition print_mem :: "nat \<Rightarrow> nat \<Rightarrow> machine \<Rightarrow> machine" where
  "print_mem lower upper m =
     (if slot_is_full m then fold (print_mem_step upper) [lower..<upper] m
      else Serial_print ''<EMPTY SLOT>'' m)"

text \<open>\<open>print_mem_name\<close> (lines 379-392): the loop leaves at the first zero byte.\<close>

fun print_mem_name_loop :: "nat list \<Rightarrow> machine \<Rightarrow> machine" where
  "print_mem_name_loop [] m = m"
| "print_mem_name_loop (x # xs) m =
     (let val = eeprom m (at_slot m (x + 8))
      in if val = 0x00 then m
         else print_mem_name_loop xs (Serial_print [char_of (unat val)] m))"

definition print_mem_name :: "machine \<Rightarrow> machine" where
  "print_mem_name m =
     (if eeprom m (at_slot m (0 + 8)) = 0x00 then Serial_print ''<UNNAMED>'' m
      else print_mem_name_loop [0..<8] m)"

section \<open>The console commands\<close>

text \<open>\<open>Serial.print(slot, HEX)\<close>.\<close>

definition print_slot :: "machine \<Rightarrow> machine" where
  "print_slot m = Serial_print (print_HEX (slot m)) m"

text \<open>Case 0 of the switch, the read command (lines 127-147).\<close>

definition serial_read :: "machine \<Rightarrow> machine" where
  "serial_read m =
     (let m1 = update_slot m;
          m2 = (if slot_is_full m1
                then run [Serial_print ''Reading code from device slot '', print_slot,
                          Serial_println ''...'',
                          Serial_print ''[SUCCESS] '', print_slot, Serial_print '' : '',
                          print_mem_name, Serial_print '' : '', print_mem 1 7,
                          Serial_println [CHR 0x0A]] m1
                else run [Serial_print ''[ERROR] No code stored in slot '', print_slot,
                          Serial_println ('' yet.'' @ [CHR 0x0A])] m1)
      in m2\<lparr>serial_choice := - 1\<rparr>)"

text \<open>Case 2, the clear command (lines 217-231).\<close>

definition serial_clear :: "machine \<Rightarrow> machine" where
  "serial_clear m =
     (run [update_slot,
           Serial_print ''Clearing slot '', print_slot, Serial_println ''...'',
           clear_slot,
           Serial_print ''[SUCCESS] Slot '', print_slot,
           Serial_println ('' cleared!'' @ [CHR 0x0A])] m)
     \<lparr>serial_choice := - 1\<rparr>"

text \<open>
  Case 3, the dump command (lines 232-245). The loop counter is the global \<open>slot\<close>
  itself. The case ends with \<open>break\<close> and assigns nothing to \<open>serial_choice\<close>.
\<close>

definition dump_entry :: "machine \<Rightarrow> machine" where
  "dump_entry m =
     run [print_slot, Serial_print '' : '', print_mem_name, Serial_print '' : '',
          print_mem 1 7, Serial_print [CHR 0x0A]] m"

lemma slot_Serial_print [simp]: "slot (Serial_print s m) = slot m"
  by (simp add: Serial_print_def)

lemma slot_print_mem_name_loop [simp]: "slot (print_mem_name_loop xs m) = slot m"
  by (induction xs arbitrary: m) (simp_all add: Let_def)

lemma slot_print_mem_name [simp]: "slot (print_mem_name m) = slot m"
  by (simp add: print_mem_name_def)

lemma slot_print_mem_step [simp]: "slot (print_mem_step upper x m) = slot m"
  by (simp add: print_mem_step_def Let_def)

lemma slot_fold_print_mem_step [simp]: "slot (fold (print_mem_step upper) xs m) = slot m"
  by (induction xs arbitrary: m) simp_all

lemma slot_print_mem [simp]: "slot (print_mem lower upper m) = slot m"
  by (simp add: print_mem_def)

lemma slot_dump_entry [simp]: "slot (dump_entry m) = slot m"
  by (simp add: dump_entry_def run_def print_slot_def)

function dump_loop :: "machine \<Rightarrow> machine" where
  "dump_loop m =
     (if slot m < 0x10
      then (let m1 = dump_entry m in dump_loop (m1\<lparr>slot := slot m1 + 1\<rparr>))
      else m)"
  by pat_completeness auto
termination
proof (relation "measure (\<lambda>m. 16 - unat (slot m))")
  show "wf (measure (\<lambda>m. 16 - unat (slot m)))" by simp
next
  fix m m1 :: machine
  assume lt: "slot m < 0x10" and m1: "m1 = dump_entry m"
  have "unat (slot m) < 16" using lt by (simp add: word_less_nat_alt)
  moreover have "unat (slot m + 1) = unat (slot m) + 1"
    using \<open>unat (slot m) < 16\<close> by (simp add: unat_word_ariths)
  ultimately show "(m1\<lparr>slot := slot m1 + 1\<rparr>, m) \<in> measure (\<lambda>m. 16 - unat (slot m))"
    using m1 by simp
qed

declare dump_loop.simps [simp del]

definition serial_dump :: "machine \<Rightarrow> machine" where
  "serial_dump m =
     Serial_println (''[SUCCESS] Done dumping all slots!'' @ [CHR 0x0A])
       (dump_loop ((Serial_println ''Dumping all slots...'' m)\<lparr>slot := 0x00\<rparr>))"

subsection \<open>The write command\<close>

text \<open>
  \<open>Serial.read\<close> returns the next byte of the buffer as an \<open>int\<close>, or -1 when the buffer
  is empty. \<open>toupper\<close> and \<open>tolower\<close> are the C functions on \<open>int\<close>.
\<close>

definition Serial_read :: "machine \<Rightarrow> int \<times> machine" where
  "Serial_read m = (case rx m of [] \<Rightarrow> (- 1, m) | c # cs \<Rightarrow> (of_char c, m\<lparr>rx := cs\<rparr>))"

definition toupper :: "int \<Rightarrow> int" where
  "toupper c = (if of_char CHR ''a'' \<le> c \<and> c \<le> of_char CHR ''z'' then c - 32 else c)"

definition tolower :: "int \<Rightarrow> int" where
  "tolower c = (if of_char CHR ''A'' \<le> c \<and> c \<le> of_char CHR ''Z'' then c + 32 else c)"

text \<open>\<open>clear_serial\<close> (lines 476-480) reads until the buffer is empty.\<close>

definition clear_serial :: "machine \<Rightarrow> machine" where
  "clear_serial m = m\<lparr>rx := []\<rparr>"

text \<open>
  \<open>bad_form\<close> (lines 482-486) waits for the output to drain, empties the buffer and jumps
  to address 0. It never returns: whoever calls it ends the pass with \<open>Restarted\<close>.
\<close>

definition bad_form :: "machine \<Rightarrow> machine" where
  "bad_form m = clear_serial m"

text \<open>
  An Arduino \<open>String\<close> made from one \<open>char\<close>, and a \<open>char\<close> appended to one: the
  character goes through a C string, so the zero character adds nothing.
\<close>

definition String_of :: "int \<Rightarrow> string" where
  "String_of r = (let c = (char_of r :: char) in if c = CHR 0x00 then [] else [c])"

definition hex_digit_val_dec :: "char \<Rightarrow> int" where
  "hex_digit_val_dec ch =
     (if ch = CHR ''0'' then 0 else if ch = CHR ''1'' then 1
      else if ch = CHR ''2'' then 2 else if ch = CHR ''3'' then 3
      else if ch = CHR ''4'' then 4 else if ch = CHR ''5'' then 5
      else if ch = CHR ''6'' then 6 else if ch = CHR ''7'' then 7
      else if ch = CHR ''8'' then 8 else if ch = CHR ''9'' then 9
      else if ch = CHR ''A'' then 10 else if ch = CHR ''B'' then 11
      else if ch = CHR ''C'' then 12 else if ch = CHR ''D'' then 13
      else if ch = CHR ''E'' then 14 else if ch = CHR ''F'' then 15
      else - 1)"

definition hexstr_to_int :: "string \<Rightarrow> int" where
  "hexstr_to_int hex =
     (if length hex = 2
      then (let temp = hex_digit_val_dec (char_of (toupper (of_char (hex ! 0))))
            in if temp = - 1 then - 1
               else (let ret = 0 + temp * 16;
                         temp' = hex_digit_val_dec (char_of (toupper (of_char (hex ! 1))))
                     in if temp' = - 1 then - 1 else ret + temp'))
      else - 1)"

text \<open>
  One round of the reading loop (lines 158-179). \<open>Inl\<close> is the machine at the restart
  after a format error.
\<close>

definition read_hexstr :: "nat \<Rightarrow> machine \<Rightarrow> machine + string \<times> machine" where
  "read_hexstr x m =
     (let (c1, m1) = Serial_read m in
      if c1 \<noteq> of_char CHR ''0''
      then Inl (bad_form (Serial_println
             (''[ERROR] No leading 0 found (before leading x).'' @ [CHR 0x0A]) m1))
      else
      let (c2, m2) = Serial_read m1 in
      if tolower c2 \<noteq> of_char CHR ''x''
      then Inl (bad_form (Serial_println
             (''[ERROR] No leading x found (before 2 hex digits).'' @ [CHR 0x0A]) m2))
      else
      let (c3, m3) = Serial_read m2;
          (c4, m4) = Serial_read m3;
          hexstr = String_of c3 @ String_of c4 in
      if x < 5
      then (let (c5, m5) = Serial_read m4 in
            if c5 \<noteq> of_char CHR '',''
            then Inl (bad_form (Serial_println
                   (''[ERROR] No comma found between values (after 2 hex digits).''
                    @ [CHR 0x0A]) m5))
            else
            let (c6, m6) = Serial_read m5 in
            if c6 \<noteq> of_char CHR '' ''
            then Inl (bad_form (Serial_println
                   (''[ERROR] No space found between values (after comma).''
                    @ [CHR 0x0A]) m6))
            else Inr (hexstr, m6))
      else Inr (hexstr, m4))"

fun read_hexstrs :: "nat list \<Rightarrow> machine \<Rightarrow> machine + string list \<times> machine" where
  "read_hexstrs [] m = Inr ([], m)"
| "read_hexstrs (x # xs) m =
     (case read_hexstr x m of
        Inl m' \<Rightarrow> Inl m'
      | Inr (h, m1) \<Rightarrow>
          (case read_hexstrs xs m1 of
             Inl m' \<Rightarrow> Inl m'
           | Inr (hs, m2) \<Rightarrow> Inr (h # hs, m2)))"

text \<open>The conversion loop (lines 180-187).\<close>

fun convert_hexstrs :: "string list \<Rightarrow> machine \<Rightarrow> machine + int list" where
  "convert_hexstrs [] m = Inr []"
| "convert_hexstrs (h # hs) m =
     (let r = hexstr_to_int h in
      if r = - 1
      then Inl (bad_form (Serial_println (''[ERROR] Invalid hex character.'' @ [CHR 0x0A]) m))
      else (case convert_hexstrs hs m of
              Inl m' \<Rightarrow> Inl m'
            | Inr rs \<Rightarrow> Inr (r # rs)))"

text \<open>
  Storing the code (lines 189-196). \<open>start\<close> is the local 7-byte array; all its cells are
  assigned before \<open>crc8\<close> reads them. \<open>(byte)result[x]\<close> keeps the low 8 bits.
\<close>

definition store_code_step :: "int list \<Rightarrow> nat \<Rightarrow> machine \<times> (nat \<Rightarrow> byte) \<Rightarrow> machine \<times> (nat \<Rightarrow> byte)" where
  "store_code_step result x ms =
     (case ms of (m, start) \<Rightarrow>
        (EEPROM_write (at_slot m x + 1) (word_of_int (result ! x)) m,
         start(x + 1 := word_of_int (result ! x))))"

definition store_code :: "int list \<Rightarrow> machine \<Rightarrow> machine" where
  "store_code result m =
     (let m1 = EEPROM_write (at_slot m 0) 0x0C m;
          start0 = (\<lambda>_. 0)(0 := 0x0C);
          (m2, start) = fold (store_code_step result) [0..<6] (m1, start0)
      in EEPROM_write (at_slot m2 7) (crc8 (map start [0..<7])) m2)"

text \<open>Storing the name (lines 204-211).\<close>

definition store_name_step :: "nat \<Rightarrow> machine \<Rightarrow> machine" where
  "store_name_step x m =
     (if rx m = [] then EEPROM_write (at_slot m (x + 8)) 0x00 m
      else (let (c, m1) = Serial_read m in EEPROM_write (at_slot m1 (x + 8)) (word_of_int c) m1))"

text \<open>
  Waiting for serial input. \<open>next_arrival\<close> walks the polls of an empty buffer up to the
  first one that finds bytes, and counts them; with no arrival left the wait never ends.
  The first wait (line 154) spins without a delay, the second (line 202) sleeps 1 ms
  before each new poll.
\<close>

fun next_arrival :: "char list list \<Rightarrow> (nat \<times> char list \<times> char list list) option" where
  "next_arrival [] = None"
| "next_arrival (b # bs) =
     (if b \<noteq> [] then Some (1, b, bs)
      else (case next_arrival bs of None \<Rightarrow> None | Some (n, r) \<Rightarrow> Some (Suc n, r)))"

definition await_code :: "machine \<Rightarrow> machine option" where
  "await_code m =
     (if rx m \<noteq> [] then Some m
      else (case next_arrival (rx_later m) of
              None \<Rightarrow> None
            | Some (n, b, bs) \<Rightarrow> Some (m\<lparr>rx := b, rx_later := bs\<rparr>)))"

definition await_name :: "machine \<Rightarrow> machine option" where
  "await_name m =
     (if rx m \<noteq> [] then Some m
      else (case next_arrival (rx_later m) of
              None \<Rightarrow> None
            | Some (n, b, bs) \<Rightarrow> Some ((emit (replicate n (Delay 1)) m)\<lparr>rx := b, rx_later := bs\<rparr>)))"

text \<open>
  The body of the \<open>while\<close> loop of case 1 (lines 157-213), in its two halves: reading
  the six values (lines 157-187), then saving them and the name (lines 189-213).
\<close>

definition read_code :: "machine \<Rightarrow> machine + int list \<times> machine" where
  "read_code m =
     (case read_hexstrs [0..<6] m of
        Inl m' \<Rightarrow> Inl m'
      | Inr (hexstr, m1) \<Rightarrow>
          (case convert_hexstrs hexstr m1 of
             Inl m' \<Rightarrow> Inl m'
           | Inr result \<Rightarrow> Inr (result, m1)))"

definition save_code :: "int list \<Rightarrow> machine \<Rightarrow> outcome \<times> machine" where
  "save_code result m =
     (let m1 = run [store_code result,
                    Serial_print ''[SUCCESS] Code saved to slot '', print_slot,
                    Serial_print (''!'' @ [CHR 0x0A]),
                    Serial_println ''Waiting for name (up to 8 characters)...''] m
      in case await_name m1 of
           None \<Rightarrow> (Blocked, m1)
         | Some m2 \<Rightarrow>
             (Returned,
              run [emit [Delay 100], fold store_name_step [0..<8],
                   Serial_println (''[SUCCESS] Name saved!'' @ [CHR 0x0A]),
                   clear_serial] m2))"

definition write_round :: "machine \<Rightarrow> outcome \<times> machine" where
  "write_round m =
     (case read_code m of
        Inl m' \<Rightarrow> (Restarted, m')
      | Inr (result, m1) \<Rightarrow> save_code result m1)"

text \<open>
  The \<open>while (Serial.available() > 0)\<close> loop around that body (line 156). A round that
  returns has just emptied the buffer, which is why the loop ends.
\<close>

lemma write_round_Returned: "write_round m = (Returned, m') \<Longrightarrow> rx m' = []"
  by (auto simp: write_round_def save_code_def run_def clear_serial_def Let_def
           split: sum.splits prod.splits option.splits)

function write_loop :: "machine \<Rightarrow> outcome \<times> machine" where
  "write_loop m =
     (if rx m \<noteq> []
      then (case write_round m of
              (Returned, m') \<Rightarrow> write_loop m'
            | (oc, m') \<Rightarrow> (oc, m'))
      else (Returned, m))"
  by pat_completeness auto
termination
  apply (relation "measure (\<lambda>m. length (rx m))")
   apply simp
  apply (auto dest: write_round_Returned [OF sym])
  done

declare write_loop.simps [simp del]

text \<open>Case 1 of the switch (lines 148-216).\<close>

definition serial_write :: "machine \<Rightarrow> outcome \<times> machine" where
  "serial_write m =
     (let m1 = run [update_slot,
                    Serial_print ''Waiting for code to program slot '', print_slot,
                    Serial_println '' with...'',
                    Serial_println ''Format: 0x01, 0x02, 0x03, 0x04, 0x05, 0x06''] m
      in case await_code m1 of
           None \<Rightarrow> (Blocked, m1)
         | Some m2 \<Rightarrow>
             (case write_loop (emit [Delay 100] m2) of
                (Returned, m3) \<Rightarrow> (Returned, m3\<lparr>serial_choice := - 1\<rparr>)
              | (oc, m3) \<Rightarrow> (oc, m3)))"

subsection \<open>The serial branch of \<open>loop\<close>\<close>

text \<open>
  The loop that drains the buffer (lines 104-122): a byte is looked at only while
  \<open>serial_choice\<close> is -1.
\<close>

fun read_command :: "char list \<Rightarrow> int \<Rightarrow> int" where
  "read_command [] choice = choice"
| "read_command (c # cs) choice =
     read_command cs
       (if choice = - 1
        then (let currChar = toupper (of_char c) in
              if currChar = of_char CHR ''R'' then 0
              else if currChar = of_char CHR ''W'' then 1
              else if currChar = of_char CHR ''C'' then 2
              else if currChar = of_char CHR ''D'' then 3
              else choice)
        else choice)"

definition loop_serial :: "machine \<Rightarrow> outcome \<times> machine" where
  "loop_serial m =
     (let m1 = emit [Delay 100] m;
          m2 = m1\<lparr>serial_choice := read_command (rx m1) (serial_choice m1), rx := []\<rparr>;
          m3 = clear_serial m2;
          (oc, m4) =
            (if serial_choice m3 = 0 then (Returned, serial_read m3)
             else if serial_choice m3 = 1 then serial_write m3
             else if serial_choice m3 = 2 then (Returned, serial_clear m3)
             else if serial_choice m3 = 3 then (Returned, serial_dump m3)
             else (Returned, m3\<lparr>serial_choice := - 1\<rparr>))
      in if oc = Returned then (Returned, printWelcome m4) else (oc, m4))"

section \<open>The buttons\<close>

text \<open>
  \<open>digitalRead\<close> on a button takes the next level of its input list. The pair
  \<open>read_pressed = !digitalRead(READ); write_pressed = !digitalRead(WRITE);\<close> stands at
  lines 253-254 and again at lines 259-260.
\<close>

definition next_level :: "level list \<Rightarrow> level \<times> level list" where
  "next_level ls = (case ls of [] \<Rightarrow> (HIGH, []) | l # ls' \<Rightarrow> (l, ls'))"

definition sample_buttons :: "machine \<Rightarrow> machine" where
  "sample_buttons m =
     (let (r, rs) = next_level (in_READ m);
          (w, ws) = next_level (in_WRITE m)
      in m\<lparr>read_pressed := (r = LOW), write_pressed := (w = LOW),
            in_READ := rs, in_WRITE := ws\<rparr>)"

text \<open>\<open>while(!digitalRead(PIN)) delay(1);\<close> on a list of levels: the delays, and what is left.\<close>

fun wait_while_low :: "level list \<Rightarrow> event list \<times> level list" where
  "wait_while_low [] = ([], [])"
| "wait_while_low (l # ls) =
     (if l = LOW then (case wait_while_low ls of (es, r) \<Rightarrow> (Delay 1 # es, r))
      else ([], ls))"

definition wait_release_READ :: "machine \<Rightarrow> machine" where
  "wait_release_READ m =
     (case wait_while_low (in_READ m) of (es, r) \<Rightarrow> (emit es m)\<lparr>in_READ := r\<rparr>)"

definition wait_release_WRITE :: "machine \<Rightarrow> machine" where
  "wait_release_WRITE m =
     (case wait_while_low (in_WRITE m) of (es, r) \<Rightarrow> (emit es m)\<lparr>in_WRITE := r\<rparr>)"

text \<open>
  The confirmation loop of the two-button hold (lines 257-264): \<open>False\<close> when the pass
  returns because a button was let go.
\<close>

fun chord_confirm :: "nat \<Rightarrow> machine \<Rightarrow> bool \<times> machine" where
  "chord_confirm 0 m = (True, m)"
| "chord_confirm (Suc n) m =
     (let m1 = sample_buttons (emit (blinkPin RED 1 1000) m) in
      if \<not> read_pressed m1 \<or> \<not> write_pressed m1 then (False, m1)
      else chord_confirm n m1)"

text \<open>
  \<open>ibutton.search(addr)\<close>: one call into the library; when a device answers, its 8 bytes
  are copied into \<open>addr\<close>. The sketch reads \<open>addr\<close> only after a search that succeeded.
\<close>

definition ibutton_search :: "machine \<Rightarrow> bool \<times> machine" where
  "ibutton_search m =
     (case found m of
        None \<Rightarrow> (False, emit [OW_search] m)
      | Some X \<Rightarrow>
          (True, (emit [OW_search] m)\<lparr>addr := fold (\<lambda>i a. a(i := X ! i)) [0..<8] (addr m)\<rparr>))"

text \<open>The branch taken when the search finds nothing (lines 273-277 and 292-296).\<close>

definition no_device :: "machine \<Rightarrow> machine" where
  "no_device m = emit [DigitalWrite RED HIGH, OW_reset_search, Delay 1, DigitalWrite RED LOW] m"

text \<open>The READ button (lines 270-287).\<close>

definition capture_step :: "nat \<Rightarrow> machine \<Rightarrow> machine" where
  "capture_step i m =
     (let m1 = EEPROM_write (at_slot m i) (addr m i) m
      in m1\<lparr>code := (code m1)(i := addr m1 i)\<rparr>)"

definition capture :: "machine \<Rightarrow> outcome \<times> machine" where
  "capture m =
     (let m1 = update_slot m;
          (ok, m2) = ibutton_search m1
      in if \<not> ok then (Returned, no_device m2)
         else (Returned,
               run [fold capture_step [0..<8], emit (blinkPin GREEN 5 250),
                    wait_release_READ] m2))"

text \<open>The WRITE button (lines 288-322).\<close>

definition program_step :: "nat \<Rightarrow> machine \<Rightarrow> machine" where
  "program_step x m =
     run [emit [DigitalWrite RED HIGH], emit [Delay 5],
          emit (writeByte (code m x)),
          emit [DigitalWrite RED LOW], emit [Delay 15]] m"

definition program :: "machine \<Rightarrow> outcome \<times> machine" where
  "program m =
     (let m1 = update_slot m in
      if slot_is_full m1
      then (let (ok, m2) = ibutton_search m1
            in if \<not> ok then (Returned, no_device m2)
               else (Returned,
                     run [emit [OW_skip], emit [OW_reset], emit [OW_write 0x33],
                          emit [OW_skip], emit [OW_reset], emit [OW_write 0xD5],
                          fold program_step [0..<8],
                          emit [OW_reset],
                          emit (blinkPin GREEN 5 250),
                          wait_release_WRITE] m2))
      else (Returned, run [emit (blinkPin RED 5 250), wait_release_WRITE] m1))"

text \<open>The button branch of \<open>loop\<close> (lines 252-326).\<close>

definition on_button :: "machine \<Rightarrow> outcome \<times> machine" where
  "on_button m =
     (if read_pressed m then capture m
      else if write_pressed m then program m
      else (Returned, emit [Delay 1] m))"

definition loop_buttons :: "machine \<Rightarrow> outcome \<times> machine" where
  "loop_buttons m =
     (let m1 = sample_buttons m in
      if read_pressed m1 \<and> write_pressed m1
      then (let (held, m2) = chord_confirm 3 m1
            in if \<not> held then (Returned, m2)
               else on_button (run [clear_slot, emit (blinkPin GREEN 3 250)] m2))
      else on_button m1)"

section \<open>The main loop and the start-up\<close>

definition loop :: "machine \<Rightarrow> outcome \<times> machine" where
  "loop m = (if rx m \<noteq> [] then loop_serial m else loop_buttons m)"

text \<open>
  The machine when the program starts on a given EEPROM: the globals as C initialises
  them (zero, and \<open>serial_choice = -1\<close>), nothing sent yet. The inputs are empty and are
  set by whoever runs the machine.
\<close>

definition power_on :: "(nat \<Rightarrow> byte) \<Rightarrow> machine" where
  "power_on e =
     \<lparr>addr = (\<lambda>_. 0), code = (\<lambda>_. 0), read_pressed = False, write_pressed = False,
      serial_choice = - 1, slot = 0, eeprom = e, trace = [], tx = [],
      rx = [], rx_later = [], in_READ = [], in_WRITE = [], in_SLOT = (\<lambda>_. HIGH),
      found = None\<rparr>"

text \<open>The start-up routine of the sketch (lines 82-98).\<close>

definition setup_board :: "machine \<Rightarrow> machine" where
  "setup_board m =
     run [emit [PinMode RED OUTPUT, PinMode GREEN OUTPUT,
                PinMode READ INPUT_PULLUP, PinMode WRITE INPUT_PULLUP],
          emit (map (\<lambda>x. PinMode (SLOT x) INPUT_PULLUP) [0..<4]),
          emit [DigitalWrite RED LOW, DigitalWrite GREEN LOW],
          printWelcome] m"

section \<open>Reading the trace\<close>

text \<open>
  An event is on the bus when it is a call into the OneWire library or drives the
  iButton pin; \<open>ow_call\<close> keeps the library calls alone.
\<close>

fun on_bus :: "event \<Rightarrow> bool" where
  "on_bus (DigitalWrite p l) = (p = IBUTTON)"
| "on_bus (PinMode p md) = (p = IBUTTON)"
| "on_bus (Delay n) = False"
| "on_bus (DelayMicroseconds n) = False"
| "on_bus OW_search = True"
| "on_bus OW_reset_search = True"
| "on_bus OW_skip = True"
| "on_bus OW_reset = True"
| "on_bus (OW_write b) = True"

fun ow_call :: "event \<Rightarrow> bool" where
  "ow_call OW_search = True"
| "ow_call OW_reset_search = True"
| "ow_call OW_skip = True"
| "ow_call OW_reset = True"
| "ow_call (OW_write b) = True"
| "ow_call e = False"

section \<open>Reading the dump\<close>

text \<open>
  What one line of the dump says about slot \<open>i\<close> of an EEPROM \<open>e\<close>, written down
  from the outside: the slot number in hexadecimal; the label, that is the label bytes
  up to the first zero as characters, or \<open><UNNAMED>\<close> when the first label byte is zero;
  then \<open><EMPTY SLOT>\<close> when the 8 identifier bytes are all zero, and otherwise the
  identifier bytes 1 to 6, each as \<open>0x\<close> and two hexadecimal digits, separated by a comma
  and a space. Byte 0 and byte 7 of the identifier are not part of the line.
\<close>

definition hex2 :: "byte \<Rightarrow> string" where
  "hex2 b = [hex_digit (unat b div 16), hex_digit (unat b mod 16)]"

definition label_text :: "(nat \<Rightarrow> byte) \<Rightarrow> nat \<Rightarrow> string" where
  "label_text e i =
     (if e (8 + 32 * i) = 0 then ''<UNNAMED>''
      else map (\<lambda>b. char_of (unat b))
             (takeWhile (\<lambda>b. b \<noteq> 0) (map (\<lambda>x. e (x + 8 + 32 * i)) [0..<8])))"

definition payload_text :: "(nat \<Rightarrow> byte) \<Rightarrow> nat \<Rightarrow> string" where
  "payload_text e i =
     concat (map (\<lambda>x. ''0x'' @ hex2 (e (x + 32 * i)) @ (if x < 6 then '', '' else [])) [1..<7])"

definition dump_line :: "(nat \<Rightarrow> byte) \<Rightarrow> nat \<Rightarrow> string" where
  "dump_line e i =
     print_HEX (of_nat i) @ '' : '' @ label_text e i @ '' : ''
     @ (if map (\<lambda>x. e (x + 32 * i)) [0..<8] = replicate 8 0 then ''<EMPTY SLOT>''
        else payload_text e i)
     @ [CHR 0x0A]"

section \<open>The operator's line\<close>

text \<open>
  What the operator types after the write command, in the format the sketch asks for
  (\<open>Format: 0x01, 0x02, 0x03, 0x04, 0x05, 0x06\<close>): six bytes, each as \<open>0x\<close> and two
  hexadecimal digits, with a comma and a space between them.
\<close>

definition payload_line :: "byte list \<Rightarrow> string" where
  "payload_line ps =
     concat (map (\<lambda>x. ''0x'' @ hex2 (ps ! x) @ (if x < 5 then '', '' else [])) [0..<6])"

section \<open>Example machines\<close>

text \<open>
  An EEPROM with two populated slots: slot 5 holds \<open>0C 11 22 33 44 55 66\<close> and its
  checksum \<open>4D\<close>, slot 0 holds \<open>01 A0 A1 A2 A3 A4 A5 7E\<close>; every other byte is zero.
  \<open>selector_5\<close> is the selector set to slot 5, and \<open>blank_fob\<close> a device on the wire.
\<close>

definition example_eeprom :: "nat \<Rightarrow> byte" where
  "example_eeprom a =
     (if 160 \<le> a \<and> a < 168 then [0x0C, 0x11, 0x22, 0x33, 0x44, 0x55, 0x66, 0x4D] ! (a - 160)
      else if a < 8 then [0x01, 0xA0, 0xA1, 0xA2, 0xA3, 0xA4, 0xA5, 0x7E] ! a
      else 0)"

definition selector_5 :: "nat \<Rightarrow> level" where
  "selector_5 x = (if x = 0 \<or> x = 2 then HIGH else LOW)"

definition blank_fob :: "byte list" where
  "blank_fob = [0x01, 0xFF, 0xFF, 0xFF, 0xFF, 0xFF, 0xFF, 0x2F]"

text \<open>The WRITE button pressed with slot 5 selected and a device on the wire.\<close>

definition program_example :: machine where
  "program_example =
     (power_on example_eeprom)\<lparr>in_SLOT := selector_5, in_WRITE := [LOW, LOW, HIGH],
        found := Some blank_fob\<rparr>"

text \<open>The WRITE button pressed with the empty slot 15 selected.\<close>

definition empty_example :: machine where
  "empty_example =
     (power_on example_eeprom)\<lparr>in_WRITE := [LOW, LOW, HIGH], found := Some blank_fob\<rparr>"

text \<open>The READ button pressed with slot 5 selected and a device on the wire.\<close>

definition capture_example :: machine where
  "capture_example =
     (power_on example_eeprom)\<lparr>in_SLOT := selector_5, in_READ := [LOW, LOW, HIGH],
        found := Some blank_fob\<rparr>"

text \<open>
  The same EEPROM with another device in slot 5: family code 0x01 in place of 0x0C,
  the same six bytes after it, and the checksum 0x75 that belongs to them.
\<close>

definition other_family_eeprom :: "nat \<Rightarrow> byte" where
  "other_family_eeprom = example_eeprom(160 := 0x01, 167 := 0x75)"

text \<open>
  Both buttons held, from power-on, through the three confirmations and beyond, with
  slot 5 selected and no device on the wire.
\<close>

definition chord_example :: machine where
  "chord_example =
     (power_on example_eeprom)\<lparr>in_SLOT := selector_5,
        in_READ := [LOW, LOW, LOW, LOW], in_WRITE := [LOW, LOW, LOW, LOW]\<rparr>"

text \<open>
  The write command typed at power-on with slot 5 selected, then the six bytes
  \<open>01 02 AB CD EF 10\<close> as a line, then the name \<open>hello\<close>.
\<close>

definition write_example :: machine where
  "write_example =
     (power_on example_eeprom)\<lparr>rx := ''W'', in_SLOT := selector_5,
        rx_later := [''0x01, 0x02, 0xAB, 0xCD, 0xEF, 0x10'', ''hello'']\<rparr>"

section \<open>Basic facts\<close>

lemma upt_4: "[0..<4] = [0, 1, 2, 3]"
  by (simp add: upt_rec)

lemma upt_8: "[0..<8] = [0, 1, 2, 3, 4, 5, 6, 7]"
  by (simp add: upt_rec)

lemma upt_16: "[0..<16] = [0, 1, 2, 3, 4, 5, 6, 7, 8, 9, 10, 11, 12, 13, 14, 15]"
  by (simp add: upt_rec)

lemma upt_shift: "[0..<Suc n] = 0 # map Suc [0..<n]"
  by (simp add: upt_conv_Cons map_Suc_upt del: upt_Suc)

lemma map_eq_replicate_iff:
  "map f xs = replicate (length xs) c \<longleftrightarrow> (\<forall>x \<in> set xs. f x = c)"
  by (induction xs) auto

lemma eeprom_Serial_print [simp]: "eeprom (Serial_print s m) = eeprom m"
  by (simp add: Serial_print_def)

lemma eeprom_Serial_println [simp]: "eeprom (Serial_println s m) = eeprom m"
  by (simp add: Serial_println_def)

lemma slot_Serial_println [simp]: "slot (Serial_println s m) = slot m"
  by (simp add: Serial_println_def)

lemma eeprom_print_slot [simp]: "eeprom (print_slot m) = eeprom m"
  by (simp add: print_slot_def)

lemma slot_print_slot [simp]: "slot (print_slot m) = slot m"
  by (simp add: print_slot_def)

lemma slot_is_full_cong:
  "eeprom m = eeprom m' \<Longrightarrow> slot m = slot m' \<Longrightarrow> slot_is_full m = slot_is_full m'"
  by (simp add: slot_is_full_def at_slot_def)

lemma at_slot_cong: "slot m = slot m' \<Longrightarrow> at_slot m = at_slot m'"
  by (rule ext) (simp add: at_slot_def)

subsection \<open>The selector\<close>

lemma read_selector_le: "read_selector pins \<le> 15"
  unfolding read_selector_def upt_4
  by (cases "pins 0"; cases "pins 1"; cases "pins 2"; cases "pins 3")
     (simp_all add: level_bit_def)

lemma unat_read_selector: "unat (read_selector pins) \<le> 15"
  using read_selector_le [of pins] by (simp add: word_le_nat_alt)

lemma fold_fun_upd:
  "fold (\<lambda>x c. c(x := f x)) xs c0 = (\<lambda>x. if x \<in> set xs then f x else c0 x)"
  by (induction xs arbitrary: c0) (auto simp: fun_eq_iff)

lemma code_after_update:
  "fold (\<lambda>x c. c(x := f x)) [0..<8] c0 = (\<lambda>x. if x < 8 then f x else c0 x)"
  by (simp add: fold_fun_upd)

lemma fold_load_code_step:
  "fold load_code_step xs m =
     m\<lparr>code := fold (\<lambda>x c. c(x := eeprom m (at_slot m x))) xs (code m)\<rparr>"
  by (induction xs arbitrary: m) (simp_all add: load_code_step_def at_slot_def)

lemma update_slot_eq:
  "update_slot m = m\<lparr>slot := read_selector (in_SLOT m),
       code := (\<lambda>x. if x < 8
                     then eeprom m (x + push_bit 5 (unat (read_selector (in_SLOT m))))
                     else code m x)\<rparr>"
  by (simp add: update_slot_def fold_load_code_step code_after_update at_slot_def)

lemma slot_update_slot: "slot (update_slot m) = read_selector (in_SLOT m)"
  by (simp add: update_slot_eq)

lemma eeprom_update_slot: "eeprom (update_slot m) = eeprom m"
  by (simp add: update_slot_eq)

subsection \<open>Emptiness and clearing\<close>

lemma fold_or_zero:
  "fold (\<lambda>x r. r OR f x) xs (a :: byte) = 0 \<longleftrightarrow> a = 0 \<and> (\<forall>x \<in> set xs. f x = 0)"
  by (induction xs arbitrary: a) (auto simp: or_eq_0_iff)

lemma slot_is_full_iff:
  "\<not> slot_is_full m \<longleftrightarrow> map (\<lambda>x. eeprom m (at_slot m x)) [0..<8] = replicate 8 0"
  using map_eq_replicate_iff [of "\<lambda>x. eeprom m (at_slot m x)" "[0..<8]" 0]
  by (simp add: slot_is_full_def fold_or_zero Let_def)

lemma fold_clear_slot_step:
  "fold clear_slot_step xs m =
     m\<lparr>eeprom := fold (\<lambda>x e. e(at_slot m x := 0)) xs (eeprom m)\<rparr>"
  by (induction xs arbitrary: m) (simp_all add: clear_slot_step_def EEPROM_write_def at_slot_def)

lemma fold_zero_at:
  "fold (\<lambda>x e. e(g x := 0)) xs e0 = (\<lambda>a. if a \<in> g ` set xs then 0 else e0 a)"
  by (induction xs arbitrary: e0) (auto simp: fun_eq_iff)

lemma slot_clear_slot: "slot (clear_slot m) = slot m"
  by (simp add: clear_slot_def fold_clear_slot_step)

lemma eeprom_clear_slot:
  "eeprom (clear_slot m) = (\<lambda>a. if a \<in> at_slot m ` {0..<16} then 0 else eeprom m a)"
  by (simp add: clear_slot_def fold_clear_slot_step fold_zero_at)

lemma eeprom_clear_slot_at: "x < 16 \<Longrightarrow> eeprom (clear_slot m) (at_slot m x) = 0"
  by (simp add: eeprom_clear_slot)

lemma cleared_bytes:
  "map (\<lambda>x. eeprom (clear_slot m) (at_slot m x)) [0..<16] = replicate 16 0"
  using map_eq_replicate_iff [of "\<lambda>x. eeprom (clear_slot m) (at_slot m x)" "[0..<16]" 0]
  by (simp add: eeprom_clear_slot_at)

lemma not_full_clear_slot: "\<not> slot_is_full (clear_slot m)"
  using map_eq_replicate_iff [of "\<lambda>x. eeprom (clear_slot m) (at_slot m x)" "[0..<8]" 0]
  by (simp add: slot_is_full_iff at_slot_cong [OF slot_clear_slot] eeprom_clear_slot_at)

subsection \<open>The bits of a byte on the wire\<close>

lemma and_one_test: "(d :: byte) AND 1 \<noteq> 0 \<longleftrightarrow> bit d 0"
  by (simp add: and_one_eq bit_0 odd_iff_mod_2_eq_one)

lemma writeByte_loop_bits:
  "writeByte_loop n data = concat (map (\<lambda>i.
      if bit data i
      then [DigitalWrite IBUTTON LOW, PinMode IBUTTON OUTPUT, DelayMicroseconds 60,
            PinMode IBUTTON INPUT, DigitalWrite IBUTTON HIGH, Delay 10]
      else [DigitalWrite IBUTTON LOW, PinMode IBUTTON OUTPUT,
            PinMode IBUTTON INPUT, DigitalWrite IBUTTON HIGH, Delay 10]) [0..<n])"
proof (induction n arbitrary: data)
  case 0
  show ?case by simp
next
  case (Suc n)
  have shifted: "\<And>i. bit (drop_bit (Suc 0) data) i = bit data (Suc i)"
    by (simp add: bit_drop_bit_eq)
  show ?case
    unfolding upt_shift
    by (simp add: Suc.IH and_one_test shifted comp_def del: upt_Suc)
qed

subsection \<open>The button branch\<close>

lemma sample_buttons_eq:
  "sample_buttons m = m\<lparr>read_pressed := (fst (next_level (in_READ m)) = LOW),
      write_pressed := (fst (next_level (in_WRITE m)) = LOW),
      in_READ := snd (next_level (in_READ m)), in_WRITE := snd (next_level (in_WRITE m))\<rparr>"
  by (simp add: sample_buttons_def split: prod.splits)

lemma ibutton_search_Some:
  "found m = Some X \<Longrightarrow>
   ibutton_search m =
     (True, m\<lparr>trace := trace m @ [OW_search],
               addr := (\<lambda>x. if x < 8 then X ! x else addr m x)\<rparr>)"
  by (simp add: ibutton_search_def emit_def code_after_update)

lemma program_step_eq:
  "program_step x m =
     m\<lparr>trace := trace m @ [DigitalWrite RED HIGH, Delay 5] @ writeByte (code m x)
                  @ [DigitalWrite RED LOW, Delay 15]\<rparr>"
  by (simp add: program_step_def run_def emit_def)

lemma fold_program_step:
  "fold program_step xs m =
     m\<lparr>trace := trace m @ concat (map (\<lambda>x. [DigitalWrite RED HIGH, Delay 5]
                     @ writeByte (code m x) @ [DigitalWrite RED LOW, Delay 15]) xs)\<rparr>"
  by (induction xs arbitrary: m) (simp_all add: program_step_eq)

lemma capture_step_eq:
  "capture_step i m =
     m\<lparr>eeprom := (eeprom m)(at_slot m i := addr m i), code := (code m)(i := addr m i)\<rparr>"
  by (simp add: capture_step_def EEPROM_write_def Let_def)

lemma fold_capture_step:
  "fold capture_step xs m =
     m\<lparr>eeprom := fold (\<lambda>i e. e(at_slot m i := addr m i)) xs (eeprom m),
       code := fold (\<lambda>i c. c(i := addr m i)) xs (code m)\<rparr>"
  by (induction xs arbitrary: m) (simp_all add: capture_step_eq at_slot_def)

lemma captured_bytes:
  "i < 8 \<Longrightarrow> fold (\<lambda>i e. e(i + k := f i)) [0..<8] e0 (i + k) = f i"
proof -
  have "fold (\<lambda>i e. e(i + k := f i)) xs e0 (i + k) = (if i \<in> set xs then f i else e0 (i + k))"
    for xs
    by (induction xs arbitrary: e0) auto
  then show "i < 8 \<Longrightarrow> ?thesis" by simp
qed

subsection \<open>Filtering the trace\<close>

lemma filter_concat_map_empty:
  "(\<And>x. filter P (f x) = []) \<Longrightarrow> filter P (concat (map f xs)) = []"
  by (induction xs) simp_all

lemma on_bus_blinkPin_loop: "p \<noteq> IBUTTON \<Longrightarrow> filter on_bus (blinkPin_loop n p k) = []"
  by (induction n) simp_all

lemma on_bus_wait: "filter on_bus (fst (wait_while_low ls)) = []"
  by (induction ls) (auto simp: case_prod_unfold)

lemma ow_call_writeByte_loop: "filter ow_call (writeByte_loop n d) = []"
  by (induction n arbitrary: d) simp_all

lemma ow_call_blinkPin_loop: "filter ow_call (blinkPin_loop n p k) = []"
  by (induction n) simp_all

lemma ow_call_wait: "filter ow_call (fst (wait_while_low ls)) = []"
  by (induction ls) (auto simp: case_prod_unfold)

text \<open>
  What one pass through \<open>loop\<close> does when no serial data waits, the WRITE button alone is
  pressed, the selected slot is not empty and a device answers the search.
\<close>

lemma program_run:
  assumes "rx m = []"
    and "fst (next_level (in_READ m)) = HIGH"
    and "fst (next_level (in_WRITE m)) = LOW"
    and "map (\<lambda>x. eeprom m (x + push_bit 5 (unat (read_selector (in_SLOT m))))) [0..<8]
          \<noteq> replicate 8 0"
    and "found m = Some X"
  shows "fst (loop m) = Returned
     \<and> eeprom (snd (loop m)) = eeprom m
     \<and> trace (snd (loop m)) =
         trace m
         @ [OW_search, OW_skip, OW_reset, OW_write 0x33, OW_skip, OW_reset, OW_write 0xD5]
         @ concat (map (\<lambda>x. [DigitalWrite RED HIGH, Delay 5]
                        @ writeByte (eeprom m (x + push_bit 5 (unat (read_selector (in_SLOT m)))))
                        @ [DigitalWrite RED LOW, Delay 15]) [0..<8])
         @ [OW_reset]
         @ blinkPin GREEN 5 250
         @ fst (wait_while_low (snd (next_level (in_WRITE m))))"
proof -
  let ?m1 = "sample_buttons m"
  let ?m2 = "update_slot ?m1"
  have full: "slot_is_full ?m2"
    using assms(4) slot_is_full_iff [of ?m2]
    by (simp add: update_slot_eq sample_buttons_eq at_slot_def)
  have fnd: "found ?m2 = Some X"
    using assms(5) by (simp add: update_slot_eq sample_buttons_eq)
  have "loop m = program ?m1"
    using assms(1-3)
    by (simp add: loop_def loop_buttons_def on_button_def sample_buttons_eq Let_def)
  then have run: "loop m = (Returned,
      run [emit [OW_skip], emit [OW_reset], emit [OW_write 0x33],
           emit [OW_skip], emit [OW_reset], emit [OW_write 0xD5],
           fold program_step [0..<8], emit [OW_reset], emit (blinkPin GREEN 5 250),
           wait_release_WRITE]
        (?m2\<lparr>trace := trace ?m2 @ [OW_search],
              addr := (\<lambda>x. if x < 8 then X ! x else addr ?m2 x)\<rparr>))"
    using full by (simp add: program_def Let_def ibutton_search_Some [OF fnd])
  have codes: "\<And>x. x \<in> set [0..<8] \<Longrightarrow>
      code ?m2 x = eeprom m (x + push_bit 5 (unat (read_selector (in_SLOT m))))"
    by (simp add: update_slot_eq sample_buttons_eq)
  have steps: "concat (map (\<lambda>x. [DigitalWrite RED HIGH, Delay 5] @ writeByte (code ?m2 x)
                       @ [DigitalWrite RED LOW, Delay 15]) [0..<8])
      = concat (map (\<lambda>x. [DigitalWrite RED HIGH, Delay 5]
                       @ writeByte (eeprom m (x + push_bit 5 (unat (read_selector (in_SLOT m)))))
                       @ [DigitalWrite RED LOW, Delay 15]) [0..<8])"
    by (rule arg_cong [where f = concat], rule map_cong) (simp_all only: codes)
  have "trace (snd (loop m)) =
         trace m
         @ [OW_search, OW_skip, OW_reset, OW_write 0x33, OW_skip, OW_reset, OW_write 0xD5]
         @ concat (map (\<lambda>x. [DigitalWrite RED HIGH, Delay 5] @ writeByte (code ?m2 x)
                       @ [DigitalWrite RED LOW, Delay 15]) [0..<8])
         @ [OW_reset]
         @ blinkPin GREEN 5 250
         @ fst (wait_while_low (snd (next_level (in_WRITE m))))"
    unfolding run
    by (simp add: run_def wait_release_WRITE_def emit_def fold_program_step
          case_prod_unfold del: upt_Suc)
       (simp add: update_slot_eq sample_buttons_eq)
  moreover have "fst (loop m) = Returned \<and> eeprom (snd (loop m)) = eeprom m"
    unfolding run
    by (simp add: run_def wait_release_WRITE_def emit_def fold_program_step
          update_slot_eq sample_buttons_eq case_prod_unfold del: upt_Suc)
  ultimately show ?thesis
    by (simp only: steps simp_thms)
qed

subsection \<open>The example machines\<close>

lemma replicate_8: "replicate 8 x = [x, x, x, x, x, x, x, x]"
  by (simp add: numeral_eq_Suc)

lemma read_selector_5: "read_selector selector_5 = 5"
  by (simp add: read_selector_def selector_5_def upt_4 level_bit_def)

lemma read_selector_HIGH: "read_selector (\<lambda>_. HIGH) = 15"
  by (simp add: read_selector_def upt_4 level_bit_def)

lemma program_example_inputs:
  "rx program_example = []"
  "fst (next_level (in_READ program_example)) = HIGH"
  "fst (next_level (in_WRITE program_example)) = LOW"
  "map (\<lambda>x. eeprom program_example
          (x + push_bit 5 (unat (read_selector (in_SLOT program_example))))) [0..<8]
       \<noteq> replicate 8 0"
  "found program_example = Some blank_fob"
  "trace program_example = []"
  by (simp_all add: program_example_def power_on_def next_level_def read_selector_5
        example_eeprom_def upt_8 replicate_8)

lemma empty_example_inputs:
  "rx empty_example = []"
  "fst (next_level (in_READ empty_example)) = HIGH"
  "fst (next_level (in_WRITE empty_example)) = LOW"
  "map (\<lambda>x. eeprom empty_example
          (x + push_bit 5 (unat (read_selector (in_SLOT empty_example))))) [0..<8]
       = replicate 8 0"
  by (simp_all add: empty_example_def power_on_def next_level_def read_selector_HIGH
        example_eeprom_def upt_8 replicate_8)

lemma capture_example_inputs:
  "rx capture_example = []"
  "fst (next_level (in_READ capture_example)) = LOW"
  "fst (next_level (in_WRITE capture_example)) = HIGH"
  "found capture_example = Some blank_fob"
  "length blank_fob = 8"
  by (simp_all add: capture_example_def power_on_def next_level_def blank_fob_def)

subsection \<open>The console write\<close>

lemma upt_6: "[0..<6] = [0, 1, 2, 3, 4, 5]" by (simp add: upt_rec)
lemma upt_7: "[0..<7] = [0, 1, 2, 3, 4, 5, 6]" by (simp add: upt_rec)

lemma fold_store_code_step:
  "fold (store_code_step result) xs (m, st) =
     (m\<lparr>eeprom := fold (\<lambda>x e. e(at_slot m x + 1 := word_of_int (result ! x))) xs (eeprom m)\<rparr>,
      fold (\<lambda>x s. s(x + 1 := word_of_int (result ! x))) xs st)"
  by (induction xs arbitrary: m st) (simp_all add: store_code_step_def EEPROM_write_def at_slot_def)

lemma store_code_eq:
  "store_code result m =
     m\<lparr>eeprom :=
         (fold (\<lambda>x e. e(at_slot m x + 1 := word_of_int (result ! x))) [0..<6]
            ((eeprom m)(at_slot m 0 := 0x0C)))
         (at_slot m 7 :=
            crc8 (map (fold (\<lambda>x s. s(x + 1 := word_of_int (result ! x))) [0..<6]
                        ((\<lambda>_. 0)(0 := 0x0C))) [0..<7]))\<rparr>"
  by (simp add: store_code_def EEPROM_write_def fold_store_code_step at_slot_def Let_def
        del: upt_Suc)

lemma store_code_bytes:
  "map (\<lambda>x. eeprom (store_code [r0, r1, r2, r3, r4, r5] m) (at_slot m x)) [0..<8]
     = [0x0C, word_of_int r0, word_of_int r1, word_of_int r2, word_of_int r3,
        word_of_int r4, word_of_int r5,
        crc8 [0x0C, word_of_int r0, word_of_int r1, word_of_int r2, word_of_int r3,
              word_of_int r4, word_of_int r5]]"
  by (simp add: store_code_eq upt_6 upt_7 upt_8 at_slot_def)

lemma slot_store_code: "slot (store_code result m) = slot m"
  by (simp add: store_code_eq del: upt_Suc)

lemma store_name_step_frame:
  "slot (store_name_step x m) = slot m
   \<and> (a \<noteq> at_slot m (x + 8) \<longrightarrow> eeprom (store_name_step x m) a = eeprom m a)"
  by (simp add: store_name_step_def Serial_read_def EEPROM_write_def at_slot_def
        split: list.splits)

lemma fold_store_name_step_frame:
  "slot (fold store_name_step xs m) = slot m
   \<and> (a \<notin> (\<lambda>x. at_slot m (x + 8)) ` set xs \<longrightarrow> eeprom (fold store_name_step xs m) a = eeprom m a)"
proof (induction xs arbitrary: m)
  case Nil
  show ?case by simp
next
  case (Cons x xs)
  have s: "at_slot (store_name_step x m) = at_slot m"
    by (rule at_slot_cong) (simp add: store_name_step_frame)
  show ?case
    using Cons.IH [of "store_name_step x m"] store_name_step_frame [of x m a]
    by (auto simp: s)
qed

lemma slot_emit [simp]: "slot (emit es m) = slot m"
  by (simp add: emit_def)

lemma eeprom_emit [simp]: "eeprom (emit es m) = eeprom m"
  by (simp add: emit_def)

lemma await_name_frame:
  "await_name m = Some m' \<Longrightarrow> slot m' = slot m \<and> eeprom m' = eeprom m"
  by (auto simp: await_name_def emit_def split: if_splits option.splits)

lemma save_code_frame:
  assumes "x < 8"
  shows "slot (snd (save_code result m)) = slot m
     \<and> eeprom (snd (save_code result m)) (at_slot m x) = eeprom (store_code result m) (at_slot m x)"
proof -
  let ?m1 = "run [store_code result,
                    Serial_print ''[SUCCESS] Code saved to slot '', print_slot,
                    Serial_print (''!'' @ [CHR 0x0A]),
                    Serial_println ''Waiting for name (up to 8 characters)...''] m"
  have m1: "slot ?m1 = slot m \<and> eeprom ?m1 = eeprom (store_code result m)"
    by (simp add: run_def slot_store_code)
  show ?thesis
  proof (cases "await_name ?m1")
    case None
    then show ?thesis using m1 by (simp add: save_code_def Let_def)
  next
    case (Some m2)
    have m2: "slot m2 = slot m \<and> eeprom m2 = eeprom (store_code result m)"
      using await_name_frame [OF Some] m1 by simp
    have at: "at_slot (emit [Delay 100] m2) = at_slot m"
      by (rule at_slot_cong) (simp add: m2)
    have out: "at_slot m x \<notin> (\<lambda>y. at_slot m (y + 8)) ` set [0..<8]"
      using assms by (auto simp: at_slot_def)
    have "slot (fold store_name_step [0..<8] (emit [Delay 100] m2)) = slot m
       \<and> eeprom (fold store_name_step [0..<8] (emit [Delay 100] m2)) (at_slot m x)
           = eeprom (store_code result m) (at_slot m x)"
      using fold_store_name_step_frame [of "[0..<8]" "emit [Delay 100] m2" "at_slot m x"] out
      by (simp add: at m2 del: upt_Suc)
    then show ?thesis
      using Some by (simp add: save_code_def Let_def run_def clear_serial_def del: upt_Suc)
  qed
qed

subsection \<open>The dump\<close>

lemma hex_digit_0: "hex_digit 0 = CHR ''0''"
  by code_simp

lemma hex2_print_HEX: "(if b < 0x10 then ''0'' else []) @ print_HEX b = hex2 b"
proof -
  have lt: "unat b < 256" using unsigned_less [of b, where ?'a = nat] by simp
  have "b < 0x10 \<longleftrightarrow> unat b div 16 = 0"
    by (simp add: word_less_nat_alt div_eq_0_iff)
  moreover have "unat b div 16 mod 16 = unat b div 16"
    using lt by simp
  ultimately show ?thesis
    by (simp add: print_HEX_def hex2_def hex_digit_0)
qed

lemma hex2_small: "b < 0x10 \<Longrightarrow> CHR ''0'' # print_HEX b = hex2 b"
  using hex2_print_HEX [of b] by simp

lemma hex2_big: "\<not> b < 0x10 \<Longrightarrow> print_HEX b = hex2 b"
  using hex2_print_HEX [of b] by simp

lemma print_mem_step_eq:
  "print_mem_step upper x m =
     m\<lparr>tx := tx m @ ''0x'' @ hex2 (eeprom m (at_slot m x))
                @ (if x < upper - 1 then '', '' else [])\<rparr>"
  by (cases "eeprom m (at_slot m x) < 0x10")
     (simp_all add: print_mem_step_def Serial_print_def Let_def
        hex2_small [symmetric] hex2_big [symmetric])

lemma fold_print_mem_step:
  "fold (print_mem_step upper) xs m =
     m\<lparr>tx := tx m @ concat (map (\<lambda>x. ''0x'' @ hex2 (eeprom m (at_slot m x))
                                     @ (if x < upper - 1 then '', '' else [])) xs)\<rparr>"
  by (induction xs arbitrary: m) (simp_all add: print_mem_step_eq at_slot_def)

lemma print_mem_name_loop_eq:
  "print_mem_name_loop xs m =
     m\<lparr>tx := tx m @ map (\<lambda>b. char_of (unat b))
                       (takeWhile (\<lambda>b. b \<noteq> 0) (map (\<lambda>x. eeprom m (at_slot m (x + 8))) xs))\<rparr>"
  by (induction xs arbitrary: m) (simp_all add: Serial_print_def Let_def at_slot_def)

lemma at_slot_unat: "at_slot m x = x + 32 * unat (slot m)"
  by (simp add: at_slot_def push_bit_eq_mult)

lemma print_mem_name_eq:
  "print_mem_name m = m\<lparr>tx := tx m @ label_text (eeprom m) (unat (slot m))\<rparr>"
  by (simp add: print_mem_name_def print_mem_name_loop_eq label_text_def Serial_print_def
        at_slot_unat add.assoc del: upt_Suc)

lemma slot_is_full_unat:
  "slot_is_full m \<longleftrightarrow>
     map (\<lambda>x. eeprom m (x + 32 * unat (slot m))) [0..<8] \<noteq> replicate 8 0"
  using slot_is_full_iff [of m] unfolding at_slot_unat by blast

lemma print_mem_eq:
  "print_mem (Suc 0) 7 m =
     m\<lparr>tx := tx m @ (if map (\<lambda>x. eeprom m (x + 32 * unat (slot m))) [0..<8] = replicate 8 0
                     then ''<EMPTY SLOT>'' else payload_text (eeprom m) (unat (slot m)))\<rparr>"
  by (simp add: print_mem_def fold_print_mem_step payload_text_def Serial_print_def
        at_slot_unat slot_is_full_unat del: upt_Suc)

lemma dump_entry_eq:
  "dump_entry m = m\<lparr>tx := tx m @ dump_line (eeprom m) (unat (slot m))\<rparr>"
  by (simp add: dump_entry_def run_def print_slot_def print_mem_name_eq print_mem_eq
        dump_line_def Serial_print_def del: upt_Suc)

lemma dump_loop_eq:
  "k \<le> 16 \<Longrightarrow> slot m = of_nat k \<Longrightarrow>
   dump_loop m = m\<lparr>tx := tx m @ concat (map (dump_line (eeprom m)) [k..<16]), slot := 16\<rparr>"
proof (induction "16 - k" arbitrary: k m)
  case 0
  then have "k = 16" by simp
  with 0 show ?case
    by (subst dump_loop.simps) simp
next
  case (Suc n)
  then have k: "k < 16" by simp
  have u: "unat (of_nat k :: byte) = k"
    using k by (simp add: unat_of_nat)
  have lt: "slot m < 0x10"
    using k by (simp add: Suc.prems(2) word_less_nat_alt u)
  let ?m1 = "dump_entry m"
  have next_slot: "slot (?m1\<lparr>slot := slot ?m1 + 1\<rparr>) = of_nat (Suc k)"
    by (simp add: Suc.prems(2))
  have "dump_loop m = dump_loop (?m1\<lparr>slot := slot ?m1 + 1\<rparr>)"
    using lt by (subst dump_loop.simps) (simp add: Let_def)
  also have "\<dots> = (?m1\<lparr>slot := slot ?m1 + 1\<rparr>)
      \<lparr>tx := tx (?m1\<lparr>slot := slot ?m1 + 1\<rparr>)
              @ concat (map (dump_line (eeprom (?m1\<lparr>slot := slot ?m1 + 1\<rparr>))) [Suc k..<16]),
        slot := 16\<rparr>"
    using Suc.hyps(2) k by (intro Suc.hyps(1) next_slot) simp_all
  also have "\<dots> = m\<lparr>tx := tx m @ concat (map (dump_line (eeprom m)) [k..<16]), slot := 16\<rparr>"
    using k by (simp add: dump_entry_eq Suc.prems(2) u upt_conv_Cons del: upt_Suc)
  finally show ?case .
qed

lemma serial_dump_eq:
  "serial_dump m =
     m\<lparr>tx := tx m @ ''Dumping all slots...'' @ [CHR 0x0D, CHR 0x0A]
              @ concat (map (dump_line (eeprom m)) [0..<16])
              @ ''[SUCCESS] Done dumping all slots!'' @ [CHR 0x0A, CHR 0x0D, CHR 0x0A],
       slot := 16\<rparr>"
  by (simp add: serial_dump_def dump_loop_eq [of 0] Serial_println_def Serial_print_def
        del: upt_Suc)


lemma same_lines:
  "concat (map (dump_line example_eeprom) [0..<16])
     = concat (map (dump_line other_family_eeprom) [0..<16])"
  by code_simp

lemma printWelcome_eq:
  "printWelcome m =
     m\<lparr>tx := tx m @ ''iButton Cloner Serial Console'' @ [CHR 0x0D, CHR 0x0A]
         @ ''Enter 'R' to read current memory slot.'' @ [CHR 0x0D, CHR 0x0A]
         @ ''Enter 'W' to write to current memory slot.'' @ [CHR 0x0D, CHR 0x0A]
         @ ''Enter 'C' to clear the current memory slot.'' @ [CHR 0x0D, CHR 0x0A]
         @ ''Enter 'D' to dump all memory slots.'' @ [CHR 0x0A, CHR 0x0D, CHR 0x0A]\<rparr>"
  by (simp add: printWelcome_def run_def Serial_println_def Serial_print_def)

lemma read_command_set: "choice \<noteq> - 1 \<Longrightarrow> read_command cs choice = choice"
  by (induction cs) simp_all

lemma loop_dump:
  assumes "rx m \<noteq> []" and "read_command (rx m) (serial_choice m) = 3"
  shows "loop m = (Returned, printWelcome (serial_dump
           (m\<lparr>trace := trace m @ [Delay 100], serial_choice := 3, rx := []\<rparr>)))"
  using assms
  by (simp add: loop_def loop_serial_def emit_def clear_serial_def Let_def)

subsection \<open>The two-button hold\<close>

lemma next_level_Cons: "next_level (l # ls) = (l, ls)"
  by (simp add: next_level_def)

lemma chord_held:
  assumes "in_READ m = LOW # LOW # LOW # rs" and "in_WRITE m = LOW # LOW # LOW # ws"
  shows "chord_confirm 3 m =
     (True, m\<lparr>read_pressed := True, write_pressed := True,
              trace := trace m @ blinkPin RED 1 1000 @ blinkPin RED 1 1000 @ blinkPin RED 1 1000,
              in_READ := rs, in_WRITE := ws\<rparr>)"
  using assms
  by (simp add: numeral_3_eq_3 sample_buttons_eq emit_def next_level_Cons Let_def)

lemma chord_run:
  assumes "rx m = []"
    and "in_READ m = LOW # LOW # LOW # LOW # rs"
    and "in_WRITE m = LOW # LOW # LOW # LOW # ws"
    and "found m = None"
  shows "fst (loop m) = Returned
     \<and> eeprom (snd (loop m)) = eeprom (clear_slot m)
     \<and> slot (snd (loop m)) = read_selector (in_SLOT m)"
proof -
  let ?m1 = "sample_buttons m"
  have m1: "?m1 = m\<lparr>read_pressed := True, write_pressed := True,
                     in_READ := LOW # LOW # LOW # rs, in_WRITE := LOW # LOW # LOW # ws\<rparr>"
    using assms(2,3) by (simp add: sample_buttons_eq next_level_Cons)
  let ?m2 = "m\<lparr>read_pressed := True, write_pressed := True,
              trace := trace m @ blinkPin RED 1 1000 @ blinkPin RED 1 1000 @ blinkPin RED 1 1000,
              in_READ := rs, in_WRITE := ws\<rparr>"
  have held: "chord_confirm 3 ?m1 = (True, ?m2)"
    unfolding m1 by (subst chord_held [where rs = rs and ws = ws]) simp_all
  let ?m3 = "run [clear_slot, emit (blinkPin GREEN 3 250)] ?m2"
  have run: "loop m = capture ?m3"
    using assms(1) held
    by (simp add: loop_def loop_buttons_def Let_def m1 on_button_def run_def emit_def
          clear_slot_def fold_clear_slot_step del: upt_Suc)
  have m3: "eeprom ?m3 = eeprom (clear_slot m) \<and> found ?m3 = None \<and> in_SLOT ?m3 = in_SLOT m"
    using assms(4)
    by (simp add: run_def emit_def clear_slot_def fold_clear_slot_step at_slot_def del: upt_Suc)
  show ?thesis
    unfolding run
    using m3
    by (simp add: capture_def ibutton_search_def no_device_def emit_def update_slot_eq Let_def
          del: upt_Suc)
qed

lemma eeprom_clear_slot_range:
  "eeprom (clear_slot m) a =
     (if push_bit 5 (unat (slot m)) \<le> a \<and> a < push_bit 5 (unat (slot m)) + 16 then 0
      else eeprom m a)"
proof -
  have "a \<in> at_slot m ` {0..<16}
      \<longleftrightarrow> push_bit 5 (unat (slot m)) \<le> a \<and> a < push_bit 5 (unat (slot m)) + 16"
  proof
    assume "a \<in> at_slot m ` {0..<16}"
    then show "push_bit 5 (unat (slot m)) \<le> a \<and> a < push_bit 5 (unat (slot m)) + 16"
      by (auto simp: at_slot_def)
  next
    assume r: "push_bit 5 (unat (slot m)) \<le> a \<and> a < push_bit 5 (unat (slot m)) + 16"
    then have "a = at_slot m (a - push_bit 5 (unat (slot m)))"
      by (simp add: at_slot_def)
    moreover have "a - push_bit 5 (unat (slot m)) \<in> {0..<16}"
      using r by auto
    ultimately show "a \<in> at_slot m ` {0..<16}" by (rule image_eqI)
  qed
  then show ?thesis by (simp add: eeprom_clear_slot)
qed

subsection \<open>The write command, from the line to the slot\<close>

lemma hex_digit_table:
  "list_all (\<lambda>d. hex_digit d \<noteq> CHR 0x00
       \<and> hex_digit_val_dec (char_of (toupper (of_char (hex_digit d)))) = int d) [0..<16]"
  by code_simp

lemma hex_digit_ok:
  "d < 16 \<Longrightarrow> hex_digit d \<noteq> CHR 0x00
       \<and> hex_digit_val_dec (char_of (toupper (of_char (hex_digit d)))) = int d"
  using hex_digit_table by (simp add: list_all_iff)

lemma unat_byte_digits: "unat (b :: byte) div 16 < 16" "unat b mod 16 < 16"
proof -
  have "unat b < 256" using unsigned_less [of b, where ?'a = nat] by simp
  then show "unat b div 16 < 16" by simp
  show "unat b mod 16 < 16" by simp
qed

lemma hexstr_to_int_hex2: "hexstr_to_int (hex2 b) = int (unat b)"
proof -
  have hi: "hex_digit_val_dec (char_of (toupper (of_char (hex_digit (unat b div 16)))))
      = int (unat b div 16)"
    using hex_digit_ok [OF unat_byte_digits(1)] by simp
  have lo: "hex_digit_val_dec (char_of (toupper (of_char (hex_digit (unat b mod 16)))))
      = int (unat b mod 16)"
    using hex_digit_ok [OF unat_byte_digits(2)] by simp
  have "unat b div 16 * 16 + unat b mod 16 = unat b"
    by simp
  then have "int (unat b div 16 * 16 + unat b mod 16) = int (unat b)"
    by (rule arg_cong)
  then have sum: "int (unat b div 16) * 16 + int (unat b mod 16) = int (unat b)"
    by (simp only: of_nat_add of_nat_mult of_nat_numeral)
  have nonneg: "int (unat b div 16) \<noteq> - 1" "int (unat b mod 16) \<noteq> - 1"
    by linarith+
  have len: "length (hex2 b) = 2" and nth: "hex2 b ! 0 = hex_digit (unat b div 16)"
    "hex2 b ! 1 = hex_digit (unat b mod 16)"
    by (simp_all add: hex2_def)
  show ?thesis
    unfolding hexstr_to_int_def len nth hi lo Let_def
    using sum nonneg by (simp only: if_True if_False refl add_0_left)
qed

lemma String_of_char: "c \<noteq> CHR 0x00 \<Longrightarrow> String_of (of_char c) = [c]"
  by (simp add: String_of_def)

lemma String_of_hex2:
  "String_of (of_char (hex_digit (unat b div 16))) @ String_of (of_char (hex_digit (unat b mod 16)))
     = hex2 (b :: byte)"
  using hex_digit_ok [OF unat_byte_digits(1), of b] hex_digit_ok [OF unat_byte_digits(2), of b]
  by (simp add: String_of_char hex2_def)

lemma Serial_read_Cons: "rx m = c # cs \<Longrightarrow> Serial_read m = (of_char c, m\<lparr>rx := cs\<rparr>)"
  by (simp add: Serial_read_def)

lemma tolower_x: "tolower (of_char CHR ''x'') = of_char CHR ''x''"
  by (simp add: tolower_def)

lemma read_hexstr_item:
  assumes "rx m = ''0x'' @ hex2 b @ (if x < 5 then '', '' else []) @ r"
  shows "read_hexstr x m = Inr (hex2 b, m\<lparr>rx := r\<rparr>)"
proof -
  let ?h = "hex_digit (unat b div 16)" and ?l = "hex_digit (unat b mod 16)"
  let ?tail = "(if x < 5 then '', '' else []) @ r"
  have r0: "rx m = CHR ''0'' # CHR ''x'' # ?h # ?l # ?tail"
    using assms by (simp add: hex2_def)
  have s1: "Serial_read m = (of_char CHR ''0'', m\<lparr>rx := CHR ''x'' # ?h # ?l # ?tail\<rparr>)"
    by (rule Serial_read_Cons) (rule r0)
  have s2: "Serial_read (m\<lparr>rx := CHR ''x'' # ?h # ?l # ?tail\<rparr>)
      = (of_char CHR ''x'', m\<lparr>rx := ?h # ?l # ?tail\<rparr>)"
    by (simp add: Serial_read_def)
  have s3: "Serial_read (m\<lparr>rx := ?h # ?l # ?tail\<rparr>) = (of_char ?h, m\<lparr>rx := ?l # ?tail\<rparr>)"
    by (simp add: Serial_read_def)
  have s4: "Serial_read (m\<lparr>rx := ?l # ?tail\<rparr>) = (of_char ?l, m\<lparr>rx := ?tail\<rparr>)"
    by (simp add: Serial_read_def)
  show ?thesis
  proof (cases "x < 5")
    case True
    have s5: "Serial_read (m\<lparr>rx := ?tail\<rparr>) = (of_char CHR '','', m\<lparr>rx := CHR '' '' # r\<rparr>)"
      using True by (simp add: Serial_read_def)
    have s6: "Serial_read (m\<lparr>rx := CHR '' '' # r\<rparr>) = (of_char CHR '' '', m\<lparr>rx := r\<rparr>)"
      by (simp add: Serial_read_def)
    show ?thesis
      unfolding read_hexstr_def s1 s2 s3 s4 s5 s6 Let_def prod.case tolower_x String_of_hex2
      using True by simp
  next
    case False
    then have t: "m\<lparr>rx := ?tail\<rparr> = m\<lparr>rx := r\<rparr>" by simp
    show ?thesis
      unfolding read_hexstr_def s1 s2 s3 s4 Let_def prod.case tolower_x String_of_hex2
      using False by simp
  qed
qed

lemma read_hexstrs_items:
  "rx m = concat (map (\<lambda>x. ''0x'' @ hex2 (ps ! x) @ (if x < 5 then '', '' else [])) xs) @ r
   \<Longrightarrow> read_hexstrs xs m = Inr (map (\<lambda>x. hex2 (ps ! x)) xs, m\<lparr>rx := r\<rparr>)"
proof (induction xs arbitrary: m)
  case Nil
  then show ?case by simp
next
  case (Cons x xs)
  let ?rest = "concat (map (\<lambda>x. ''0x'' @ hex2 (ps ! x) @ (if x < 5 then '', '' else [])) xs) @ r"
  have "rx m = ''0x'' @ hex2 (ps ! x) @ (if x < 5 then '', '' else []) @ ?rest"
    using Cons.prems by simp
  then have item: "read_hexstr x m = Inr (hex2 (ps ! x), m\<lparr>rx := ?rest\<rparr>)"
    by (rule read_hexstr_item)
  have "read_hexstrs xs (m\<lparr>rx := ?rest\<rparr>)
      = Inr (map (\<lambda>x. hex2 (ps ! x)) xs, m\<lparr>rx := ?rest\<rparr>\<lparr>rx := r\<rparr>)"
    by (rule Cons.IH) simp
  then show ?case by (simp add: item)
qed

lemma convert_hexstrs_items:
  "convert_hexstrs (map (\<lambda>x. hex2 (ps ! x)) xs) m = Inr (map (\<lambda>x. int (unat (ps ! x))) xs)"
proof (induction xs)
  case Nil
  show ?case by simp
next
  case (Cons x xs)
  have "int (unat (ps ! x)) \<noteq> - 1" by linarith
  then show ?case
    using Cons.IH by (simp only: list.map convert_hexstrs.simps hexstr_to_int_hex2 Let_def)
                     (simp only: if_False sum.case)
qed

lemma read_code_line:
  assumes "rx m = payload_line ps @ r"
  shows "read_code m = Inr (map (\<lambda>x. int (unat (ps ! x))) [0..<6], m\<lparr>rx := r\<rparr>)"
  using read_hexstrs_items [of m ps "[0..<6]" r] assms
  by (simp add: read_code_def payload_line_def convert_hexstrs_items del: upt_Suc)

lemma write_loop_once: "rx m \<noteq> [] \<Longrightarrow> write_loop m = write_round m"
proof -
  assume ne: "rx m \<noteq> []"
  obtain oc m' where r: "write_round m = (oc, m')" by (cases "write_round m")
  show ?thesis
  proof (cases oc)
    case Returned
    then have "rx m' = []" using r write_round_Returned by simp
    then have "write_loop m' = (Returned, m')"
      by (subst write_loop.simps) simp
    then show ?thesis
      using ne r Returned by (subst write_loop.simps) simp
  next
    case Restarted
    then show ?thesis using ne r by (subst write_loop.simps) simp
  next
    case Blocked
    then show ?thesis using ne r by (subst write_loop.simps) simp
  qed
qed


lemma six_values:
  "map (\<lambda>x. int (unat ([p0, p1, p2, p3, p4, p5] ! x))) [0..<6]
     = [int (unat p0), int (unat p1), int (unat p2), int (unat p3), int (unat p4), int (unat p5)]"
  by (simp add: upt_6)

lemma byte_back: "word_of_int (int (unat (b :: byte))) = b"
  by simp

lemma save_code_identifier:
  "slot (snd (save_code [r0, r1, r2, r3, r4, r5] m)) = slot m
   \<and> map (\<lambda>x. eeprom (snd (save_code [r0, r1, r2, r3, r4, r5] m)) (at_slot m x)) [0..<8]
     = [0x0C, word_of_int r0, word_of_int r1, word_of_int r2, word_of_int r3,
        word_of_int r4, word_of_int r5,
        crc8 [0x0C, word_of_int r0, word_of_int r1, word_of_int r2, word_of_int r3,
              word_of_int r4, word_of_int r5]]"
proof -
  let ?m' = "snd (save_code [r0, r1, r2, r3, r4, r5] m)"
  have same: "map (\<lambda>x. eeprom ?m' (at_slot m x)) [0..<8]
      = map (\<lambda>x. eeprom (store_code [r0, r1, r2, r3, r4, r5] m) (at_slot m x)) [0..<8]"
    by (rule map_cong) (simp_all add: save_code_frame)
  show ?thesis
    unfolding same using save_code_frame [of 0 "[r0, r1, r2, r3, r4, r5]" m]
    by (simp only: store_code_bytes simp_thms)
qed

lemma write_command_run:
  assumes ne: "rx m \<noteq> []"
    and cmd: "read_command (rx m) (serial_choice m) = 1"
    and arr: "next_arrival (rx_later m) = Some (n, payload_line ps @ rest, later)"
  shows "\<exists>m1. slot m1 = read_selector (in_SLOT m)
      \<and> fst (loop m) \<noteq> Restarted
      \<and> slot (snd (loop m)) = slot (snd (save_code (map (\<lambda>x. int (unat (ps ! x))) [0..<6]) m1))
      \<and> eeprom (snd (loop m)) = eeprom (snd (save_code (map (\<lambda>x. int (unat (ps ! x))) [0..<6]) m1))"
proof -
  let ?R = "map (\<lambda>x. int (unat (ps ! x))) [0..<6]"
  let ?m3 = "clear_serial ((emit [Delay 100] m)\<lparr>serial_choice := 1, rx := []\<rparr>)"
  let ?m4 = "run [update_slot,
                  Serial_print ''Waiting for code to program slot '', print_slot,
                  Serial_println '' with...'',
                  Serial_println ''Format: 0x01, 0x02, 0x03, 0x04, 0x05, 0x06''] ?m3"
  let ?m5 = "?m4\<lparr>rx := payload_line ps @ rest, rx_later := later\<rparr>"
  let ?m6 = "emit [Delay 100] ?m5"
  let ?m7 = "?m6\<lparr>rx := rest\<rparr>"
  have line_ne: "payload_line ps @ rest \<noteq> []"
    by (simp add: payload_line_def upt_6)
  have m4: "rx ?m4 = [] \<and> rx_later ?m4 = rx_later m \<and> slot ?m4 = read_selector (in_SLOT m)"
    by (simp add: run_def clear_serial_def emit_def update_slot_eq Serial_println_def
          Serial_print_def print_slot_def)
  have await: "await_code ?m4 = Some ?m5"
    using m4 arr by (simp add: await_code_def)
  have rx6: "rx ?m6 = payload_line ps @ rest"
    by (simp add: emit_def)
  have round: "write_round ?m6 = save_code ?R ?m7"
    using read_code_line [OF rx6] by (simp add: write_round_def del: upt_Suc)
  have wl: "write_loop ?m6 = save_code ?R ?m7"
    using write_loop_once [of ?m6] rx6 line_ne round by simp
  have sw: "serial_write ?m3 =
      (case save_code ?R ?m7 of
         (Returned, m') \<Rightarrow> (Returned, m'\<lparr>serial_choice := - 1\<rparr>)
       | (oc, m') \<Rightarrow> (oc, m'))"
    unfolding serial_write_def Let_def await option.case wl ..
  have lp: "loop m =
      (case serial_write ?m3 of (oc, m') \<Rightarrow>
         if oc = Returned then (Returned, printWelcome m') else (oc, m'))"
    using ne cmd by (simp add: loop_def loop_serial_def Let_def clear_serial_def emit_def)
  have no_restart: "fst (save_code ?R ?m7) \<noteq> Restarted"
    by (simp add: save_code_def Let_def split: option.splits)
  obtain oc m' where sc: "save_code ?R ?m7 = (oc, m')" by (cases "save_code ?R ?m7")
  have slot7: "slot ?m7 = read_selector (in_SLOT m)"
    using m4 by (simp add: emit_def)
  have "fst (loop m) \<noteq> Restarted \<and> slot (snd (loop m)) = slot m' \<and> eeprom (snd (loop m)) = eeprom m'"
    using no_restart unfolding lp sw sc
    by (cases oc) (simp_all add: printWelcome_eq)
  then show ?thesis
    using slot7 sc by (intro exI [of _ ?m7]) simp
qed

lemma payload_line_example:
  "payload_line [1, 2, 0xAB, 0xCD, 0xEF, 0x10] = ''0x01, 0x02, 0xAB, 0xCD, 0xEF, 0x10''"
  by code_simp

lemma write_example_inputs:
  "rx write_example \<noteq> []"
  "read_command (rx write_example) (serial_choice write_example) = 1"
  "next_arrival (rx_later write_example)
     = Some (1, payload_line [1, 2, 0xAB, 0xCD, 0xEF, 0x10] @ [], [''hello''])"
  "read_selector (in_SLOT write_example) = 5"
  by (simp_all add: write_example_def power_on_def toupper_def Let_def payload_line_example
        read_selector_5)

subsection \<open>A checksum by hand\<close>

lemma crc8_example: "crc8 [0x0C, 1, 2, 0xAB, 0xCD, 0xEF, 0x10] = 0x3F"
  by code_simp

section \<open>The claims\<close>

text \<open>
  C1, as the code has it. When no serial data waits, the WRITE button alone is pressed,
  the selected slot is not empty and a device answers the search, the pass puts out, in
  this order and with nothing in between: the search, skip-ROM, a bus reset, the byte
  0x33, skip-ROM again, a bus reset, the byte 0xD5, then the 8 identifier bytes of the
  selected slot through \<open>writeByte\<close>, byte 0 first and byte 7 last, each between a red
  LED on with 5 ms and a red LED off with 15 ms, then a bus reset, five green blinks and
  the polls for the button's release. The EEPROM is not written.
\<close>

theorem program_sequence:
  assumes "rx m = []"
    and "fst (next_level (in_READ m)) = HIGH"
    and "fst (next_level (in_WRITE m)) = LOW"
    and "map (\<lambda>x. eeprom m (x + push_bit 5 (unat (read_selector (in_SLOT m))))) [0..<8]
          \<noteq> replicate 8 0"
    and "found m = Some X"
  shows "fst (loop m) = Returned
     \<and> eeprom (snd (loop m)) = eeprom m
     \<and> trace (snd (loop m)) =
         trace m
         @ [OW_search, OW_skip, OW_reset, OW_write 0x33, OW_skip, OW_reset, OW_write 0xD5]
         @ concat (map (\<lambda>x. [DigitalWrite RED HIGH, Delay 5]
                        @ writeByte (eeprom m (x + push_bit 5 (unat (read_selector (in_SLOT m)))))
                        @ [DigitalWrite RED LOW, Delay 15]) [0..<8])
         @ [OW_reset]
         @ blinkPin GREEN 5 250
         @ fst (wait_while_low (snd (next_level (in_WRITE m))))"
  using assms by (rule program_run)

theorem program_sequence_witness:
  "rx program_example = []
   \<and> fst (next_level (in_READ program_example)) = HIGH
   \<and> fst (next_level (in_WRITE program_example)) = LOW
   \<and> map (\<lambda>x. eeprom program_example
          (x + push_bit 5 (unat (read_selector (in_SLOT program_example))))) [0..<8]
       \<noteq> replicate 8 0
   \<and> found program_example = Some blank_fob
   \<and> fst (loop program_example) = Returned
   \<and> eeprom (snd (loop program_example)) = eeprom program_example
   \<and> trace (snd (loop program_example)) =
         trace program_example
         @ [OW_search, OW_skip, OW_reset, OW_write 0x33, OW_skip, OW_reset, OW_write 0xD5]
         @ concat (map (\<lambda>x. [DigitalWrite RED HIGH, Delay 5]
                        @ writeByte (eeprom program_example
                            (x + push_bit 5 (unat (read_selector (in_SLOT program_example)))))
                        @ [DigitalWrite RED LOW, Delay 15]) [0..<8])
         @ [OW_reset]
         @ blinkPin GREEN 5 250
         @ fst (wait_while_low (snd (next_level (in_WRITE program_example))))"
  using program_sequence [OF program_example_inputs(1-5)] program_example_inputs(1-5)
  by blast

text \<open>
  C1 as stated fails on the example machine (slot 5 holding \<open>0C 11 22 33 44 55 66 4D\<close>, a
  device present). The calls into the OneWire library are the search, skip-ROM, reset,
  0x33, skip-ROM, reset, 0xD5 and the final reset. That is not the claim's order (reset,
  skip-ROM, reset, 0x33, reset, 0xD5, final reset) after the search, and not that order
  with its first reset taken to be the search's own either: the sketch sends a second
  skip-ROM between 0x33 and the reset that follows it, and no reset of its own before
  the first skip-ROM.
\<close>

theorem program_sequence_counterexample:
  "filter ow_call (trace (snd (loop program_example)))
     = [OW_search, OW_skip, OW_reset, OW_write 0x33, OW_skip, OW_reset, OW_write 0xD5, OW_reset]
   \<and> filter ow_call (trace (snd (loop program_example)))
     \<noteq> [OW_search, OW_reset, OW_skip, OW_reset, OW_write 0x33, OW_reset, OW_write 0xD5, OW_reset]
   \<and> filter ow_call (trace (snd (loop program_example)))
     \<noteq> [OW_search, OW_skip, OW_reset, OW_write 0x33, OW_reset, OW_write 0xD5, OW_reset]"
proof -
  have steps: "filter ow_call (concat (map (\<lambda>x. [DigitalWrite RED HIGH, Delay 5]
                        @ writeByte (eeprom program_example
                            (x + push_bit 5 (unat (read_selector (in_SLOT program_example)))))
                        @ [DigitalWrite RED LOW, Delay 15]) [0..<8])) = []"
    by (rule filter_concat_map_empty) (simp add: writeByte_def ow_call_writeByte_loop)
  have blink: "filter ow_call (blinkPin GREEN 5 250) = []"
    by (simp add: blinkPin_def ow_call_blinkPin_loop)
  have tr: "trace (snd (loop program_example)) =
         trace program_example
         @ [OW_search, OW_skip, OW_reset, OW_write 0x33, OW_skip, OW_reset, OW_write 0xD5]
         @ concat (map (\<lambda>x. [DigitalWrite RED HIGH, Delay 5]
                        @ writeByte (eeprom program_example
                            (x + push_bit 5 (unat (read_selector (in_SLOT program_example)))))
                        @ [DigitalWrite RED LOW, Delay 15]) [0..<8])
         @ [OW_reset]
         @ blinkPin GREEN 5 250
         @ fst (wait_while_low (snd (next_level (in_WRITE program_example))))"
    using program_run [OF program_example_inputs(1-5)] by blast
  have "filter ow_call (trace (snd (loop program_example)))
     = [OW_search, OW_skip, OW_reset, OW_write 0x33, OW_skip, OW_reset, OW_write 0xD5, OW_reset]"
    unfolding tr program_example_inputs(6) filter_append steps blink ow_call_wait by simp
  then show ?thesis by simp
qed

text \<open>
  C2, as the code has it. \<open>writeByte\<close> sends the bits of its argument least significant
  first. A 1 bit is sent by pulling the line low, holding it for 60 microseconds and
  releasing it; a 0 bit by pulling the line low and releasing it at once, with no delay
  between; after either, the sketch waits 10 ms before the next bit. The polarity is the
  reverse of the one the claim gives.
\<close>

theorem writeByte_bit_slots:
  "writeByte data = concat (map (\<lambda>i.
      if bit data i
      then [DigitalWrite IBUTTON LOW, PinMode IBUTTON OUTPUT, DelayMicroseconds 60,
            PinMode IBUTTON INPUT, DigitalWrite IBUTTON HIGH, Delay 10]
      else [DigitalWrite IBUTTON LOW, PinMode IBUTTON OUTPUT,
            PinMode IBUTTON INPUT, DigitalWrite IBUTTON HIGH, Delay 10]) [0..<8])"
  unfolding writeByte_def by (rule writeByte_loop_bits)

text \<open>
  C2 as stated fails: it asks for a 60 microsecond hold for every 0 bit and none for a
  1 bit. The byte 0x00, eight 0 bits, is sent with no 60 microsecond hold at all, and the
  byte 0xFF, eight 1 bits, with eight of them.
\<close>

theorem writeByte_polarity_counterexample:
  "count_list (writeByte 0x00) (DelayMicroseconds 60) = 0
   \<and> count_list (writeByte 0xFF) (DelayMicroseconds 60) = 8"
  by code_simp

text \<open>
  C3 at its failing input. After the dump command the sketch's command state
  \<open>serial_choice\<close> is still 3, not -1. The next command, here \<open>C\<close> with slot 5
  selected, is then not looked at: the pass dumps again, the command state stays 3 and
  slot 5 is not cleared.
\<close>

theorem dump_keeps_serial_choice:
  "serial_choice (snd (loop ((power_on example_eeprom)\<lparr>rx := ''D''\<rparr>))) = 3
   \<and> serial_choice (snd (loop ((snd (loop ((power_on example_eeprom)\<lparr>rx := ''D''\<rparr>)))
         \<lparr>rx := ''C'', in_SLOT := selector_5\<rparr>))) = 3
   \<and> eeprom (snd (loop ((snd (loop ((power_on example_eeprom)\<lparr>rx := ''D''\<rparr>)))
         \<lparr>rx := ''C'', in_SLOT := selector_5\<rparr>))) = example_eeprom"
proof -
  let ?m0 = "(power_on example_eeprom)\<lparr>rx := ''D''\<rparr>"
  have first: "loop ?m0 = (Returned, printWelcome (serial_dump
           (?m0\<lparr>trace := trace ?m0 @ [Delay 100], serial_choice := 3, rx := []\<rparr>)))"
    by (rule loop_dump) (simp_all add: power_on_def toupper_def Let_def)
  let ?m1 = "(snd (loop ?m0))\<lparr>rx := ''C'', in_SLOT := selector_5\<rparr>"
  have c1: "serial_choice ?m1 = 3" and e1: "eeprom ?m1 = example_eeprom"
    unfolding first by (simp_all add: printWelcome_eq serial_dump_eq power_on_def del: upt_Suc)
  have second: "loop ?m1 = (Returned, printWelcome (serial_dump
           (?m1\<lparr>trace := trace ?m1 @ [Delay 100], serial_choice := 3, rx := []\<rparr>)))"
    by (rule loop_dump) (simp_all add: c1 read_command_set)
  have "serial_choice (snd (loop ?m0)) = 3"
    using c1 by simp
  moreover have "serial_choice (snd (loop ?m1)) = 3 \<and> eeprom (snd (loop ?m1)) = example_eeprom"
    unfolding second using e1 by (simp add: printWelcome_eq serial_dump_eq del: upt_Suc)
  ultimately show ?thesis by simp
qed


text \<open>
  C4 at its failing input. From power-on the slot index is 0. With slot 5 selected and
  both buttons held through the three confirmations, the clearing loop zeroes slot 0,
  the index left over, and leaves slot 5 as it was; the selector is read only afterwards,
  by the capture that follows.
\<close>

theorem chord_clears_stale_slot:
  "slot chord_example = 0
   \<and> read_selector (in_SLOT chord_example) = 5
   \<and> slot (snd (loop chord_example)) = 5
   \<and> map (eeprom chord_example) [0..<8] = [0x01, 0xA0, 0xA1, 0xA2, 0xA3, 0xA4, 0xA5, 0x7E]
   \<and> map (eeprom (snd (loop chord_example))) [0..<8] = [0, 0, 0, 0, 0, 0, 0, 0]
   \<and> map (eeprom (snd (loop chord_example))) [160..<168]
       = [0x0C, 0x11, 0x22, 0x33, 0x44, 0x55, 0x66, 0x4D]"
proof -
  have run: "fst (loop chord_example) = Returned
     \<and> eeprom (snd (loop chord_example)) = eeprom (clear_slot chord_example)
     \<and> slot (snd (loop chord_example)) = read_selector (in_SLOT chord_example)"
    by (rule chord_run [where rs = "[]" and ws = "[]"])
       (simp_all add: chord_example_def power_on_def)
  have s: "slot chord_example = 0" "read_selector (in_SLOT chord_example) = 5"
    "eeprom chord_example = example_eeprom"
    by (simp_all add: chord_example_def power_on_def read_selector_5)
  show ?thesis
    by (simp add: run s eeprom_clear_slot_range example_eeprom_def upt_rec)
qed


text \<open>
  C5. The console write path, from the command to the stored bytes. Whenever serial
  data waits and is read as the write command, and the next serial arrival is a line of
  six bytes \<open>p0 ... p5\<close> in the sketch's format (whatever follows the line), the pass
  through \<open>loop\<close> does not restart the processor, sets the slot index from the selector,
  and leaves in that slot the identifier whose byte 0 is the family code 0x0C, whose
  bytes 1 to 6 are \<open>p0 ... p5\<close> in order and whose byte 7 is \<open>crc8\<close> of bytes 0 to 6;
  read back, byte 7 is the checksum of the first 7 bytes read back. This holds whether
  the name arrives afterwards or the sketch is left waiting for it.
\<close>

theorem console_write_identifier:
  assumes "rx m \<noteq> []"
    and "read_command (rx m) (serial_choice m) = 1"
    and "next_arrival (rx_later m) = Some (n, payload_line [p0, p1, p2, p3, p4, p5] @ rest, later)"
  shows "fst (loop m) \<noteq> Restarted
     \<and> slot (snd (loop m)) = read_selector (in_SLOT m)
     \<and> map (\<lambda>x. eeprom (snd (loop m)) (at_slot (snd (loop m)) x)) [0..<8]
         = [0x0C, p0, p1, p2, p3, p4, p5, crc8 [0x0C, p0, p1, p2, p3, p4, p5]]
     \<and> eeprom (snd (loop m)) (at_slot (snd (loop m)) 7)
         = crc8 (map (\<lambda>x. eeprom (snd (loop m)) (at_slot (snd (loop m)) x)) [0..<7])"
proof -
  let ?R = "[int (unat p0), int (unat p1), int (unat p2), int (unat p3), int (unat p4), int (unat p5)]"
  obtain m1 where m1: "slot m1 = read_selector (in_SLOT m)"
    and nr: "fst (loop m) \<noteq> Restarted"
    and s: "slot (snd (loop m)) = slot (snd (save_code ?R m1))"
    and e: "eeprom (snd (loop m)) = eeprom (snd (save_code ?R m1))"
    using write_command_run [OF assms] unfolding six_values by blast
  have sl: "slot (snd (loop m)) = read_selector (in_SLOT m)"
    using s m1 save_code_identifier [of "int (unat p0)" "int (unat p1)" "int (unat p2)"
        "int (unat p3)" "int (unat p4)" "int (unat p5)" m1] by simp
  have at: "at_slot (snd (loop m)) = at_slot m1"
    by (rule at_slot_cong) (simp add: sl m1)
  have bytes: "map (\<lambda>x. eeprom (snd (loop m)) (at_slot (snd (loop m)) x)) [0..<8]
         = [0x0C, p0, p1, p2, p3, p4, p5, crc8 [0x0C, p0, p1, p2, p3, p4, p5]]"
    unfolding at e
    using save_code_identifier [of "int (unat p0)" "int (unat p1)" "int (unat p2)"
        "int (unat p3)" "int (unat p4)" "int (unat p5)" m1]
    by (simp only: byte_back)
  have "[0..<8] = [0..<7] @ [7]" by (simp add: upt_rec)
  with bytes have "map (\<lambda>x. eeprom (snd (loop m)) (at_slot (snd (loop m)) x)) [0..<7]
         @ [eeprom (snd (loop m)) (at_slot (snd (loop m)) 7)]
       = [0x0C, p0, p1, p2, p3, p4, p5] @ [crc8 [0x0C, p0, p1, p2, p3, p4, p5]]"
    by simp
  then have "map (\<lambda>x. eeprom (snd (loop m)) (at_slot (snd (loop m)) x)) [0..<7]
         = [0x0C, p0, p1, p2, p3, p4, p5]
     \<and> eeprom (snd (loop m)) (at_slot (snd (loop m)) 7) = crc8 [0x0C, p0, p1, p2, p3, p4, p5]"
    by (simp only: append1_eq_conv)
  with nr sl bytes show ?thesis by simp
qed


theorem console_write_identifier_witness:
  "rx write_example \<noteq> []
   \<and> read_command (rx write_example) (serial_choice write_example) = 1
   \<and> next_arrival (rx_later write_example)
       = Some (1, payload_line [1, 2, 0xAB, 0xCD, 0xEF, 0x10] @ [], [''hello''])
   \<and> payload_line [1, 2, 0xAB, 0xCD, 0xEF, 0x10] = ''0x01, 0x02, 0xAB, 0xCD, 0xEF, 0x10''
   \<and> fst (loop write_example) \<noteq> Restarted
   \<and> slot (snd (loop write_example)) = 5
   \<and> map (\<lambda>x. eeprom (snd (loop write_example)) (at_slot (snd (loop write_example)) x)) [0..<8]
       = [0x0C, 1, 2, 0xAB, 0xCD, 0xEF, 0x10, 0x3F]"
  using console_write_identifier [OF write_example_inputs(1-3)] write_example_inputs
    payload_line_example
  by (simp only: crc8_example simp_thms)

text \<open>
  C6. The emptiness test (the negation of \<open>slot_is_full\<close>) holds exactly when the 8
  identifier bytes of the current slot are all zero. The clearing loop leaves the slot
  index alone, zeroes all 16 bytes of the record (identifier and label), and the
  emptiness test holds right after it; it also holds right after the console's clear
  command, for the slot the selector gives.
\<close>

theorem slot_emptiness:
  "(\<not> slot_is_full m \<longleftrightarrow> map (\<lambda>x. eeprom m (at_slot m x)) [0..<8] = replicate 8 0)
   \<and> \<not> slot_is_full (clear_slot m)
   \<and> slot (clear_slot m) = slot m
   \<and> map (\<lambda>x. eeprom (clear_slot m) (at_slot m x)) [0..<16] = replicate 16 0
   \<and> \<not> slot_is_full (serial_clear m)"
proof -
  have "slot_is_full (serial_clear m) =
        slot_is_full (clear_slot (Serial_println ''...''
          (print_slot (Serial_print ''Clearing slot '' (update_slot m)))))"
    by (rule slot_is_full_cong) (simp_all add: serial_clear_def run_def)
  then show ?thesis
    by (simp add: slot_is_full_iff [symmetric] not_full_clear_slot slot_clear_slot cleared_bytes)
qed

text \<open>
  C7. When no serial data waits, the WRITE button alone is pressed and the 8 identifier
  bytes of the selected slot are all zero, the pass returns with the EEPROM unchanged; all
  it puts out is five red blinks (the "slot empty" signal) and the 1 ms polls that wait
  for the button's release, and nothing of it is on the bus.
\<close>

theorem program_on_empty_slot:
  assumes "rx m = []"
    and "fst (next_level (in_READ m)) = HIGH"
    and "fst (next_level (in_WRITE m)) = LOW"
    and "map (\<lambda>x. eeprom m (x + push_bit 5 (unat (read_selector (in_SLOT m))))) [0..<8]
          = replicate 8 0"
  shows "fst (loop m) = Returned
     \<and> eeprom (snd (loop m)) = eeprom m
     \<and> trace (snd (loop m)) =
         trace m @ blinkPin RED 5 250 @ fst (wait_while_low (snd (next_level (in_WRITE m))))
     \<and> filter on_bus (trace (snd (loop m))) = filter on_bus (trace m)"
proof -
  let ?m1 = "sample_buttons m"
  have empty: "\<not> slot_is_full (update_slot ?m1)"
    using assms(4) by (simp add: slot_is_full_iff update_slot_eq sample_buttons_eq at_slot_def)
  have "loop m = program ?m1"
    using assms(1-3)
    by (simp add: loop_def loop_buttons_def on_button_def sample_buttons_eq Let_def)
  then have run: "loop m =
      (Returned, run [emit (blinkPin RED 5 250), wait_release_WRITE] (update_slot ?m1))"
    using empty by (simp add: program_def Let_def)
  show ?thesis
    unfolding run
    by (simp add: run_def wait_release_WRITE_def emit_def update_slot_eq sample_buttons_eq
          on_bus_wait on_bus_blinkPin_loop blinkPin_def case_prod_unfold)
qed

theorem program_on_empty_slot_witness:
  "rx empty_example = []
   \<and> fst (next_level (in_READ empty_example)) = HIGH
   \<and> fst (next_level (in_WRITE empty_example)) = LOW
   \<and> map (\<lambda>x. eeprom empty_example
          (x + push_bit 5 (unat (read_selector (in_SLOT empty_example))))) [0..<8]
       = replicate 8 0
   \<and> fst (loop empty_example) = Returned
   \<and> eeprom (snd (loop empty_example)) = eeprom empty_example
   \<and> trace (snd (loop empty_example)) =
         trace empty_example @ blinkPin RED 5 250
         @ fst (wait_while_low (snd (next_level (in_WRITE empty_example))))
   \<and> filter on_bus (trace (snd (loop empty_example))) = filter on_bus (trace empty_example)"
  using program_on_empty_slot [OF empty_example_inputs] empty_example_inputs
  by blast

text \<open>
  C8. When no serial data waits, the READ button alone is pressed and the search finds
  a device with the 8 bytes \<open>X\<close>, the pass returns with the slot index set from the
  selector and the 8 identifier bytes of that slot equal to \<open>X\<close>, byte for byte.
\<close>

theorem capture_round_trip:
  assumes "rx m = []"
    and "fst (next_level (in_READ m)) = LOW"
    and "fst (next_level (in_WRITE m)) = HIGH"
    and "found m = Some X"
    and "length X = 8"
  shows "fst (loop m) = Returned
     \<and> slot (snd (loop m)) = read_selector (in_SLOT m)
     \<and> map (\<lambda>i. eeprom (snd (loop m)) (at_slot (snd (loop m)) i)) [0..<8] = X"
proof -
  let ?m1 = "sample_buttons m"
  let ?m2 = "update_slot ?m1"
  have fnd: "found ?m2 = Some X"
    using assms(4) by (simp add: update_slot_eq sample_buttons_eq)
  have "loop m = capture ?m1"
    using assms(1-3)
    by (simp add: loop_def loop_buttons_def on_button_def sample_buttons_eq Let_def)
  then have run: "loop m = (Returned,
      run [fold capture_step [0..<8], emit (blinkPin GREEN 5 250), wait_release_READ]
        (?m2\<lparr>trace := trace ?m2 @ [OW_search],
              addr := (\<lambda>x. if x < 8 then X ! x else addr ?m2 x)\<rparr>))"
    by (simp add: capture_def Let_def ibutton_search_Some [OF fnd])
  have "map (\<lambda>i. eeprom (snd (loop m)) (at_slot (snd (loop m)) i)) [0..<8]
        = map (\<lambda>i. X ! i) [0..<8]"
    unfolding run
    by (rule map_cong)
       (simp_all add: run_def wait_release_READ_def emit_def fold_capture_step at_slot_def
          update_slot_eq sample_buttons_eq case_prod_unfold captured_bytes del: upt_Suc)
  also have "\<dots> = X"
    using assms(5) map_nth [of X] by simp
  finally have bytes:
    "map (\<lambda>i. eeprom (snd (loop m)) (at_slot (snd (loop m)) i)) [0..<8] = X" .
  have "fst (loop m) = Returned \<and> slot (snd (loop m)) = read_selector (in_SLOT m)"
    unfolding run
    by (simp add: run_def wait_release_READ_def emit_def fold_capture_step
          update_slot_eq sample_buttons_eq case_prod_unfold del: upt_Suc)
  with bytes show ?thesis by simp
qed

theorem capture_round_trip_witness:
  "rx capture_example = []
   \<and> fst (next_level (in_READ capture_example)) = LOW
   \<and> fst (next_level (in_WRITE capture_example)) = HIGH
   \<and> found capture_example = Some blank_fob
   \<and> length blank_fob = 8
   \<and> fst (loop capture_example) = Returned
   \<and> slot (snd (loop capture_example)) = read_selector (in_SLOT capture_example)
   \<and> map (\<lambda>i. eeprom (snd (loop capture_example)) (at_slot (snd (loop capture_example)) i))
        [0..<8] = blank_fob"
  using capture_round_trip [OF capture_example_inputs] capture_example_inputs
  by blast

text \<open>
  C9, as the code has it. The dump command prints a heading, then exactly 16 lines, one
  per slot index 0 to 15 in order, then a closing line, and leaves the EEPROM alone.
  The line of a slot whose identifier is not all zero shows the slot number, the label
  and bytes 1 to 6 of the identifier; the line of an empty slot shows the slot number,
  the label and \<open><EMPTY SLOT>\<close>. What a line is made of is \<open>dump_line\<close>.
\<close>

theorem dump_all_entries:
  "tx (serial_dump m) =
     tx m @ ''Dumping all slots...'' @ [CHR 0x0D, CHR 0x0A]
     @ concat (map (dump_line (eeprom m)) [0..<16])
     @ ''[SUCCESS] Done dumping all slots!'' @ [CHR 0x0A, CHR 0x0D, CHR 0x0A]
   \<and> eeprom (serial_dump m) = eeprom m"
  by (simp add: serial_dump_eq del: upt_Suc)

text \<open>
  C9 as stated fails: a populated slot's line does not show the stored identifier. Two
  EEPROMs whose slot 5 is populated with different identifiers (they differ in byte 0
  and byte 7) give the same dump, character for character.
\<close>

theorem dump_all_counterexample:
  "tx (serial_dump (power_on example_eeprom)) = tx (serial_dump (power_on other_family_eeprom))
   \<and> slot_is_full ((power_on example_eeprom)\<lparr>slot := 5\<rparr>)
   \<and> slot_is_full ((power_on other_family_eeprom)\<lparr>slot := 5\<rparr>)
   \<and> map example_eeprom [160..<168] \<noteq> map other_family_eeprom [160..<168]"
proof -
  have "tx (serial_dump (power_on example_eeprom)) = tx (serial_dump (power_on other_family_eeprom))"
    by (simp add: serial_dump_eq power_on_def same_lines del: upt_Suc)
  moreover have "map example_eeprom [160..<168] \<noteq> map other_family_eeprom [160..<168]"
    by (simp add: upt_rec other_family_eeprom_def example_eeprom_def)
  moreover have "slot_is_full ((power_on example_eeprom)\<lparr>slot := 5\<rparr>)"
    by (simp add: slot_is_full_unat power_on_def example_eeprom_def upt_8 replicate_8)
  moreover have "slot_is_full ((power_on other_family_eeprom)\<lparr>slot := 5\<rparr>)"
    by (simp add: slot_is_full_unat power_on_def other_family_eeprom_def example_eeprom_def upt_8 replicate_8)
  ultimately show ?thesis by simp
qed

text \<open>
  C10. After \<open>update_slot\<close> the slot index is at most 15, and for every offset \<open>x\<close> inside
  the 16-byte record the address \<open>x + (slot << 5)\<close> is at most 511.
\<close>

theorem update_slot_in_range:
  "x < 16 \<Longrightarrow> unat (slot (update_slot m)) \<le> 15 \<and> at_slot (update_slot m) x \<le> 511"
  using unat_read_selector [of "in_SLOT m"]
  by (simp add: at_slot_def slot_update_slot push_bit_eq_mult)

theorem update_slot_in_range_witness:
  "(15 :: nat) < 16
   \<and> unat (slot (update_slot (power_on (\<lambda>_. 0)))) \<le> 15
   \<and> at_slot (update_slot (power_on (\<lambda>_. 0))) 15 \<le> 511"
  using update_slot_in_range [of 15 "power_on (\<lambda>_. 0)"] by simp

end
